theory Spec2Isabelle
  imports Main "HOL-Library.Char_ord" "HOL-Library.List_Lexorder" "HOL-Library.AList"
    "HOL-Library.FSet"
begin

section \<open>JavaScript values\<close>

text \<open>
  The values the generators build and read: \<open>null\<close>, booleans, numbers, strings,
  arrays and plain objects. A number is an integer or one of \<open>NaN\<close>, \<open>Infinity\<close>
  and \<open>-Infinity\<close>, which \<open>parseFloat\<close> and \<open>parseInt\<close> can return; fractions
  are outside the model, and \<open>-0\<close> is not told from \<open>0\<close>. A character is one code
  unit below 256. An object is the list of its own members in the order of its own
  keys, the order \<open>Object.keys\<close> and \<open>JSON.stringify\<close> follow; \<open>undefined\<close> is
  \<open>None\<close> of \<open>json option\<close>.
\<close>

datatype number = Finite int | NaN | PosInfinity | NegInfinity

datatype json =
    JNull
  | JBool bool
  | JNum number
  | JStr string
  | JArr "json list"
  | JObj "(string \<times> json) list"

text \<open>\<open>ToBoolean\<close>: what \<open>if (v)\<close>, \<open>!v\<close> and \<open>v || d\<close> test.\<close>

fun truthy :: "json \<Rightarrow> bool" where
  "truthy JNull = False"
| "truthy (JBool b) = b"
| "truthy (JNum (Finite n)) = (n \<noteq> 0)"
| "truthy (JNum NaN) = False"
| "truthy (JNum PosInfinity) = True"
| "truthy (JNum NegInfinity) = True"
| "truthy (JStr s) = (s \<noteq> [])"
| "truthy (JArr xs) = True"
| "truthy (JObj kvs) = True"

subsection \<open>Strings\<close>

definition isWhiteSpace :: "char \<Rightarrow> bool" where
  "isWhiteSpace c = ((of_char c :: nat) \<in> {9, 10, 11, 12, 13, 32, 160})"

text \<open>\<open>String.prototype.trim\<close>\<close>

definition trim :: "string \<Rightarrow> string" where
  "trim s = rev (dropWhile isWhiteSpace (rev (dropWhile isWhiteSpace s)))"

definition toLowerChar :: "char \<Rightarrow> char" where
  "toLowerChar c = (let n = (of_char c :: nat) in
     if (65 \<le> n \<and> n \<le> 90) \<or> (192 \<le> n \<and> n \<le> 222 \<and> n \<noteq> 215)
     then (case c of Char b0 b1 b2 b3 b4 b5 b6 b7 \<Rightarrow> Char b0 b1 b2 b3 b4 True b6 b7)
     else c)"

text \<open>\<open>String.prototype.toLowerCase\<close>\<close>

definition toLowerCase :: "string \<Rightarrow> string" where
  "toLowerCase s = map toLowerChar s"

definition startsWith :: "string \<Rightarrow> string \<Rightarrow> bool" where
  "startsWith s p = (take (length p) s = p)"

definition endsWith :: "string \<Rightarrow> string \<Rightarrow> bool" where
  "endsWith s p = (length p \<le> length s \<and> drop (length s - length p) s = p)"

text \<open>\<open>s.split(sep)\<close> for a separator of one character: never an empty list.\<close>

fun splitOn :: "char \<Rightarrow> string \<Rightarrow> string list" where
  "splitOn sep [] = [[]]"
| "splitOn sep (c # cs) =
     (if c = sep then [] # splitOn sep cs
      else (case splitOn sep cs of [] \<Rightarrow> [[c]] | p # ps \<Rightarrow> (c # p) # ps))"

text \<open>
  Decimal text of an integer, as \<open>toString\<close>, template literals and
  \<open>JSON.stringify\<close> print the integers below \<open>10^21\<close>.
\<close>

function showNat :: "nat \<Rightarrow> string" where
  "showNat n =
     (if n < 10 then [''0123456789'' ! n]
      else showNat (n div 10) @ [''0123456789'' ! (n mod 10)])"
  by pat_completeness auto
termination
  by (relation "measure id") auto

declare showNat.simps [simp del]

definition showInt :: "int \<Rightarrow> string" where
  "showInt i = (if i < 0 then CHR ''-'' # showNat (nat (- i)) else showNat (nat i))"

subsection \<open>Property access\<close>

text \<open>
  An array index as a property name: \<open>''0''\<close> or digits that do not start with
  \<open>0\<close>.
\<close>

definition isDigit :: "char \<Rightarrow> bool" where
  "isDigit c = (48 \<le> (of_char c :: nat) \<and> (of_char c :: nat) \<le> 57)"

definition digitsVal :: "string \<Rightarrow> nat" where
  "digitsVal s = foldl (\<lambda>acc c. 10 * acc + ((of_char c :: nat) - 48)) 0 s"

definition parseIndex :: "string \<Rightarrow> nat option" where
  "parseIndex s =
     (if s \<noteq> [] \<and> list_all isDigit s \<and> (s = ''0'' \<or> hd s \<noteq> CHR ''0'')
      then Some (digitsVal s) else None)"

text \<open>
  The own member \<open>k\<close> of a value that is neither \<open>null\<close> nor \<open>undefined\<close>: an
  object's own key, an array's or a string's element and \<open>length\<close>; \<open>None\<close> when
  the value has no own member of that name. The member names the generators read from a
  document (\<open>properties\<close>, \<open>items\<close>, \<open>oneOf\<close>, \<open>enum\<close>, \<open>name\<close>, \<open>type\<close>,
  \<open>$ref\<close> and the like) are names of no member of the built-in prototypes, so for them
  the own member is all that \<open>v[k]\<close> and \<open>v.k\<close> can find. The segments of a
  reference are arbitrary names: the resolver below looks for inherited members too.
\<close>

fun getProp :: "json \<Rightarrow> string \<Rightarrow> json option" where
  "getProp (JObj kvs) k = map_of kvs k"
| "getProp (JArr xs) k =
     (case parseIndex k of
        Some i \<Rightarrow> (if i < length xs then Some (xs ! i) else None)
      | None \<Rightarrow> (if k = ''length'' then Some (JNum (Finite (int (length xs)))) else None))"
| "getProp (JStr s) k =
     (case parseIndex k of
        Some i \<Rightarrow> (if i < length s then Some (JStr [s ! i]) else None)
      | None \<Rightarrow> (if k = ''length'' then Some (JNum (Finite (int (length s)))) else None))"
| "getProp v k = None"

text \<open>Optional chaining \<open>v?.k\<close>: \<open>undefined\<close> when \<open>v\<close> is \<open>null\<close> or \<open>undefined\<close>.\<close>

definition optProp :: "json option \<Rightarrow> string \<Rightarrow> json option" where
  "optProp v k = (case v of None \<Rightarrow> None | Some JNull \<Rightarrow> None | Some j \<Rightarrow> getProp j k)"

text \<open>\<open>v?.k1?.k2 ...\<close>\<close>

definition optPath :: "json \<Rightarrow> string list \<Rightarrow> json option" where
  "optPath v ks = foldl optProp (Some v) ks"

text \<open>
  \<open>obj[k] = v\<close> on a plain object, as a change of its list of own members. An own
  member of that name takes the new value in its place. Otherwise the name
  \<open>__proto__\<close> makes no own member: the assignment reaches the setter of
  \<open>Object.prototype\<close> and sets or keeps the prototype of the object, which the model
  does not track. Any other name makes a new member: one whose name is an array index
  (at most \<open>2^32 - 2\<close>) goes among the members with such names, which come first in
  ascending numeric order; any other goes to the end.
\<close>

definition arrayIndex :: "string \<Rightarrow> nat option" where
  "arrayIndex k =
     (case parseIndex k of
        None \<Rightarrow> None
      | Some i \<Rightarrow> (if int i < 4294967295 then Some i else None))"

definition indexBelow :: "nat \<Rightarrow> string \<times> json \<Rightarrow> bool" where
  "indexBelow i kv = (case arrayIndex (fst kv) of None \<Rightarrow> False | Some j \<Rightarrow> j < i)"

definition assign :: "string \<Rightarrow> json \<Rightarrow> (string \<times> json) list \<Rightarrow> (string \<times> json) list" where
  "assign k v kvs =
     (if k \<in> set (map fst kvs) then AList.update k v kvs
      else if k = ''__proto__'' then kvs
      else (case arrayIndex k of
              None \<Rightarrow> kvs @ [(k, v)]
            | Some i \<Rightarrow> takeWhile (indexBelow i) kvs @ (k, v) # dropWhile (indexBelow i) kvs))"

section \<open>Tabular extractor: spreadsheet rows to the block model\<close>

text \<open>
  A cell of the row grid \<open>sheet_to_json(sheet, {header: 1})\<close> returns; \<open>Blank\<close> is a
  cell that is missing, \<open>undefined\<close> or \<open>null\<close>.
\<close>

datatype cell = Blank | Text string | Number int | Boolean bool

text \<open>\<open>(cell || "").toString()\<close>\<close>

fun cellText :: "cell \<Rightarrow> string" where
  "cellText Blank = []"
| "cellText (Text s) = s"
| "cellText (Number n) = (if n = 0 then [] else showInt n)"
| "cellText (Boolean b) = (if b then ''true'' else [])"

text \<open>\<open>row[i]\<close> and \<open>sheetData[i] || []\<close>\<close>

definition cellAt :: "cell list \<Rightarrow> nat \<Rightarrow> cell" where
  "cellAt row i = (if i < length row then row ! i else Blank)"

definition rowAt :: "cell list list \<Rightarrow> nat \<Rightarrow> cell list" where
  "rowAt sheetData i = (if i < length sheetData then sheetData ! i else [])"

record Named =
  name :: string
  entity :: string

record BlockField =
  fieldName :: string
  nullAllowed :: string
  type :: string
  minimum :: string
  maximum :: string
  minLength :: string
  maxLength :: string
  pattern :: string
  enumValues :: string
  description :: string
  examples :: string

record BlockModel = Named +
  blockFields :: "BlockField list"

record SheetModel = Named +
  blocks :: "BlockModel list"

record WorkbookModel = Named +
  sheets :: "SheetModel list"

text \<open>
  \<open>findMetaColumns\<close>: the key a lower-cased meta header token sets, and the scan
  of the meta row (a later column with the same token overwrites an earlier one).
\<close>

definition metaKey :: "string \<Rightarrow> string option" where
  "metaKey lowerVal =
     (if lowerVal = ''null_allowed'' then Some ''null_allowed''
      else if lowerVal = ''type'' then Some ''type''
      else if lowerVal = ''minimum'' then Some ''minimum''
      else if lowerVal = ''maximum'' then Some ''maximum''
      else if lowerVal = ''minlength'' then Some ''minLength''
      else if lowerVal = ''maxlength'' then Some ''maxLength''
      else if lowerVal = ''pattern'' then Some ''pattern''
      else if lowerVal = ''enum'' then Some ''enum''
      else if lowerVal = ''description'' then Some ''description''
      else if lowerVal = ''examples'' then Some ''examples''
      else None)"

fun findMetaColumns_from :: "nat \<Rightarrow> cell list \<Rightarrow> (string \<rightharpoonup> nat) \<Rightarrow> (string \<rightharpoonup> nat)" where
  "findMetaColumns_from index [] m = m"
| "findMetaColumns_from index (v # vs) m =
     findMetaColumns_from (Suc index) vs
       (case metaKey (toLowerCase (trim (cellText v))) of
          None \<Rightarrow> m
        | Some k \<Rightarrow> m(k \<mapsto> index))"

definition findMetaColumns :: "cell list \<Rightarrow> (string \<rightharpoonup> nat)" where
  "findMetaColumns metaHeaderRow = findMetaColumns_from 0 metaHeaderRow Map.empty"

definition getSafeVal :: "cell list \<Rightarrow> (string \<rightharpoonup> nat) \<Rightarrow> string \<Rightarrow> string" where
  "getSafeVal row metaCols colName =
     (case metaCols colName of
        None \<Rightarrow> []
      | Some idx \<Rightarrow> trim (cellText (cellAt row idx)))"

definition parseFieldRow :: "cell list \<Rightarrow> (string \<rightharpoonup> nat) \<Rightarrow> BlockField" where
  "parseFieldRow row metaCols =
     \<lparr> fieldName = trim (cellText (cellAt row 0)),
       nullAllowed = getSafeVal row metaCols ''null_allowed'',
       type = getSafeVal row metaCols ''type'',
       minimum = getSafeVal row metaCols ''minimum'',
       maximum = getSafeVal row metaCols ''maximum'',
       minLength = getSafeVal row metaCols ''minLength'',
       maxLength = getSafeVal row metaCols ''maxLength'',
       pattern = getSafeVal row metaCols ''pattern'',
       enumValues = getSafeVal row metaCols ''enum'',
       description = getSafeVal row metaCols ''description'',
       examples = getSafeVal row metaCols ''examples'' \<rparr>"

definition isBlankRow :: "cell list \<Rightarrow> bool" where
  "isBlankRow row = list_all (\<lambda>cell. length (trim (cellText cell)) = 0) row"

text \<open>
  The inner loop of \<open>parseBlocksInSheet\<close>: the field rows of one block, from
  \<open>currentRow\<close> on. It returns the row the outer loop goes on from.
\<close>

function gatherFields ::
  "cell list list \<Rightarrow> (string \<rightharpoonup> nat) \<Rightarrow> nat \<Rightarrow> BlockField list \<Rightarrow> nat \<times> BlockField list" where
  "gatherFields sheetData metaCols currentRow fieldRows =
     (if currentRow < length sheetData then
        (if isBlankRow (rowAt sheetData currentRow) then (currentRow + 1, fieldRows)
         else if endsWith (trim (cellText (cellAt (rowAt sheetData currentRow) 0))) ''_list''
               \<or> endsWith (trim (cellText (cellAt (rowAt sheetData currentRow) 0))) ''_table''
         then (currentRow, fieldRows)
         else gatherFields sheetData metaCols (currentRow + 1)
                (fieldRows @ [parseFieldRow (rowAt sheetData currentRow) metaCols]))
      else (currentRow, fieldRows))"
  by pat_completeness auto
termination
  by (relation "measure (\<lambda>(sheetData, metaCols, currentRow, fieldRows). length sheetData - currentRow)")
    auto

declare gatherFields.simps [simp del]

lemma gatherFields_ge: "currentRow \<le> fst (gatherFields sheetData metaCols currentRow fieldRows)"
proof (induction sheetData metaCols currentRow fieldRows rule: gatherFields.induct)
  case (1 sheetData metaCols currentRow fieldRows)
  show ?case
    using "1.IH" by (subst gatherFields.simps) (auto simp: le_Suc_eq dest: Suc_leD)
qed

text \<open>The outer loop: \<open>while (currentRow <= lastRow)\<close> with \<open>lastRow = length - 1\<close>.\<close>

function parseBlocks_from :: "cell list list \<Rightarrow> nat \<Rightarrow> BlockModel list \<Rightarrow> BlockModel list" where
  "parseBlocks_from sheetData currentRow found =
     (if currentRow < length sheetData then
        (let firstCellVal = trim (cellText (cellAt (rowAt sheetData currentRow) 0)) in
         if endsWith firstCellVal ''_list'' \<or> endsWith firstCellVal ''_table'' then
           (let metaCols = findMetaColumns (rowAt sheetData (currentRow + 1));
                gathered = gatherFields sheetData metaCols (currentRow + 2) []
            in parseBlocks_from sheetData (fst gathered)
                 (found @ [\<lparr> name = firstCellVal,
                              entity = (if endsWith firstCellVal ''_list'' then ''list'' else ''table''),
                              blockFields = snd gathered \<rparr>]))
         else parseBlocks_from sheetData (currentRow + 1) found)
      else found)"
  by pat_completeness auto
termination
proof (relation "measure (\<lambda>(sheetData, currentRow, found). length sheetData - currentRow)")
  show "wf (measure (\<lambda>(sheetData, currentRow, found). length sheetData - currentRow))"
    by simp
next
  fix sheetData :: "cell list list" and currentRow :: nat and found :: "BlockModel list"
    and x xa xb
  assume "currentRow < length sheetData"
    and "xa = findMetaColumns (rowAt sheetData (currentRow + 1))"
    and "xb = gatherFields sheetData xa (currentRow + 2) []"
  moreover have "currentRow + 2 \<le> fst (gatherFields sheetData xa (currentRow + 2) [])"
    by (rule gatherFields_ge)
  ultimately show "((sheetData, fst xb, found @ [\<lparr>name = x,
          entity = if endsWith x ''_list'' then ''list'' else ''table'',
          blockFields = snd xb\<rparr>]), sheetData, currentRow, found)
        \<in> measure (\<lambda>(sheetData, currentRow, found). length sheetData - currentRow)"
    by simp
next
  fix sheetData :: "cell list list" and currentRow :: nat and found :: "BlockModel list"
  assume "currentRow < length sheetData"
  then show "((sheetData, currentRow + 1, found), sheetData, currentRow, found)
        \<in> measure (\<lambda>(sheetData, currentRow, found). length sheetData - currentRow)"
    by simp
qed

declare parseBlocks_from.simps [simp del]

definition parseBlocksInSheet :: "cell list list \<Rightarrow> BlockModel list" where
  "parseBlocksInSheet sheetData = parseBlocks_from sheetData 0 []"

section \<open>Schema synthesizer: block model to schema\<close>

text \<open>
  What the platform's \<open>Number\<close>, \<open>parseFloat\<close> and \<open>parseInt\<close> make of a cell
  text: \<open>isNumeric s\<close> is \<open>!Number.isNaN(Number(s))\<close>, \<open>parseFloat s\<close> is
  \<open>parseFloat(s)\<close> and \<open>parseInt s\<close> is \<open>parseInt(s, 10)\<close>. The three do not
  agree on every text: \<open>Number("Infinity")\<close> is no \<open>NaN\<close> and \<open>parseFloat\<close> of it
  is \<open>Infinity\<close>; \<open>Number(".5")\<close> is no \<open>NaN\<close> and \<open>parseInt\<close> of it is
  \<open>NaN\<close>.
\<close>

record num_fns =
  isNumeric :: "string \<Rightarrow> bool"
  parseFloat :: "string \<Rightarrow> number"
  parseInt :: "string \<Rightarrow> number"

text \<open>
  \<open>s.split(/\s*,\s*/)\<close>: the pieces between commas, without the white space that
  touches a comma.
\<close>

definition ltrim :: "string \<Rightarrow> string" where
  "ltrim s = dropWhile isWhiteSpace s"

definition rtrim :: "string \<Rightarrow> string" where
  "rtrim s = rev (dropWhile isWhiteSpace (rev s))"

definition splitCommaWs :: "string \<Rightarrow> string list" where
  "splitCommaWs s =
     (case splitOn CHR '','' s of
        [] \<Rightarrow> []
      | [p] \<Rightarrow> [p]
      | p # ps \<Rightarrow> rtrim p # map (\<lambda>q. rtrim (ltrim q)) (butlast ps) @ [ltrim (last ps)])"

definition buildFieldSchema :: "num_fns \<Rightarrow> BlockField \<Rightarrow> json" where
  "buildFieldSchema js bf = JObj (
     [(''type'',
        if type bf \<noteq> [] then
          (if nullAllowed bf \<noteq> [] \<and> toLowerCase (nullAllowed bf) = ''no''
           then JStr (type bf)
           else JArr [JStr (type bf), JStr ''null''])
        else JStr ''string'')]
     @ (if minimum bf \<noteq> [] \<and> isNumeric js (minimum bf)
        then [(''minimum'', JNum (parseFloat js (minimum bf)))] else [])
     @ (if maximum bf \<noteq> [] \<and> isNumeric js (maximum bf)
        then [(''maximum'', JNum (parseFloat js (maximum bf)))] else [])
     @ (if minLength bf \<noteq> [] \<and> isNumeric js (minLength bf)
        then [(''minLength'', JNum (parseInt js (minLength bf)))] else [])
     @ (if maxLength bf \<noteq> [] \<and> isNumeric js (maxLength bf)
        then [(''maxLength'', JNum (parseInt js (maxLength bf)))] else [])
     @ (if pattern bf \<noteq> [] then [(''pattern'', JStr (pattern bf))] else [])
     @ (if enumValues bf \<noteq> []
        then [(''enum'', JArr (map JStr (splitCommaWs (enumValues bf))))] else [])
     @ (if description bf \<noteq> [] then [(''description'', JStr (description bf))] else [])
     @ (if examples bf \<noteq> [] then [(''examples'', JArr [JStr (examples bf)])] else []))"

text \<open>\<open>{ type: "string", enum: [v] }\<close>\<close>

definition stringEnum :: "string \<Rightarrow> json" where
  "stringEnum v = JObj [(''type'', JStr ''string''), (''enum'', JArr [JStr v])]"

text \<open>
  \<open>itemProps[bf.fieldName] = ...\<close> in field order: a repeated field name keeps its
  place and takes the later schema.
\<close>

definition buildListBlockSchema :: "num_fns \<Rightarrow> BlockModel \<Rightarrow> json" where
  "buildListBlockSchema js block =
     (let itemProps =
        foldl (\<lambda>m bf. assign (fieldName bf) (buildFieldSchema js bf) m) []
          (blockFields block)
      in JObj
        [(''type'', JStr ''object''),
         (''properties'', JObj
            [(''name'', stringEnum (name block)),
             (''@entity'', stringEnum ''list''),
             (''items'', JObj
                [(''type'', JStr ''array''),
                 (''items'', JObj
                    [(''type'', JStr ''object''),
                     (''properties'', JObj itemProps),
                     (''additionalProperties'', JBool False)])])]),
         (''required'', JArr [JStr ''name'', JStr ''@entity'', JStr ''items''])])"

definition buildTableBlockSchema :: "num_fns \<Rightarrow> BlockModel \<Rightarrow> json" where
  "buildTableBlockSchema js block =
     (let headerItems = map (\<lambda>f. stringEnum (fieldName f)) (blockFields block);
          headerSize = int (length headerItems);
          headerSchema = JObj
            [(''type'', JStr ''array''),
             (''items'', JArr headerItems),
             (''additionalItems'', JBool False),
             (''minItems'', JNum (Finite headerSize)),
             (''maxItems'', JNum (Finite headerSize))];
          columnSchemas = map (\<lambda>f. buildFieldSchema js f) (blockFields block);
          rowItemsSchema = JObj
            [(''type'', JStr ''array''),
             (''items'', JArr columnSchemas),
             (''additionalItems'', JBool False),
             (''minItems'', JNum (Finite headerSize)),
             (''maxItems'', JNum (Finite headerSize))]
      in JObj
        [(''type'', JStr ''object''),
         (''properties'', JObj
            [(''name'', stringEnum (name block)),
             (''@entity'', stringEnum ''table''),
             (''header'', headerSchema),
             (''rows'', JObj [(''type'', JStr ''array''), (''items'', rowItemsSchema)])]),
         (''required'', JArr [JStr ''name'', JStr ''@entity'', JStr ''header'', JStr ''rows''])])"

text \<open>The callback of \<open>sheet.blocks.map\<close> in \<open>buildSheetSchema\<close>.\<close>

definition buildBlockSchema :: "num_fns \<Rightarrow> BlockModel \<Rightarrow> json" where
  "buildBlockSchema js b =
     (if entity b = ''list'' then buildListBlockSchema js b else buildTableBlockSchema js b)"

definition buildSheetSchema :: "num_fns \<Rightarrow> SheetModel \<Rightarrow> json" where
  "buildSheetSchema js sheet = JObj
     [(''type'', JStr ''object''),
      (''properties'', JObj
         [(''name'', stringEnum (name sheet)),
          (''@entity'', stringEnum (entity sheet)),
          (''blocks'', JObj
             [(''type'', JStr ''array''),
              (''items'', JObj [(''oneOf'', JArr (map (buildBlockSchema js) (blocks sheet)))])])]),
      (''required'', JArr [JStr ''name'', JStr ''@entity'', JStr ''blocks''])]"

definition buildJsonSchema :: "num_fns \<Rightarrow> WorkbookModel \<Rightarrow> json" where
  "buildJsonSchema js workbook = JObj
     [(''$schema'', JStr ''http://json-schema.org/draft-07/schema#''),
      (''type'', JStr ''object''),
      (''properties'', JObj
         [(''name'', stringEnum (name workbook)),
          (''@entity'', stringEnum (entity workbook)),
          (''sheets'', JObj
             [(''type'', JStr ''array''),
              (''items'', JObj [(''oneOf'', JArr (map (buildSheetSchema js) (sheets workbook)))])])]),
      (''required'', JArr [JStr ''name'', JStr ''@entity'', JStr ''sheets''])]"

text \<open>
  The sheet of scenario A: the block header, the meta row and two field rows. With the
  sheet's name it is the sheet model \<open>parseExcelToModel\<close> builds for it.
\<close>

definition scenarioA :: "cell list list" where
  "scenarioA =
     [[Text ''employee_table''],
      [Text ''name'', Text ''null_allowed'', Text ''type''],
      [Text ''id'', Text ''No'', Text ''number''],
      [Text ''label'', Text ''Yes'', Text ''string'']]"

definition scenarioA_sheet :: SheetModel where
  "scenarioA_sheet = \<lparr> name = ''Sheet1'', entity = ''sheet'', blocks = parseBlocksInSheet scenarioA \<rparr>"

text \<open>
  The number functions on the cells that hold an integer in decimal digits; any other
  text counts as not numeric here. The theorems below hold for every \<open>num_fns\<close>; this
  one instantiates them.
\<close>

definition isIntText :: "string \<Rightarrow> bool" where
  "isIntText s =
     (case s of
        [] \<Rightarrow> False
      | c # ds \<Rightarrow> (if c = CHR ''-'' then ds \<noteq> [] \<and> list_all isDigit ds
                  else list_all isDigit (c # ds)))"

definition intOfText :: "string \<Rightarrow> int" where
  "intOfText s =
     (case s of
        [] \<Rightarrow> 0
      | c # ds \<Rightarrow> (if c = CHR ''-'' then - int (digitsVal ds) else int (digitsVal (c # ds))))"

definition intCells :: num_fns where
  "intCells =
     \<lparr> isNumeric = isIntText,
       parseFloat = (\<lambda>s. Finite (intOfText s)),
       parseInt = (\<lambda>s. Finite (intOfText s)) \<rparr>"

section \<open>Code synthesizer: the row class of a table block\<close>

datatype error =
    UnsupportedRef string
  | UnresolvedPointer string
  | TypeError
  | SyntaxError

text \<open>
  \<open>GeneratorUtil\<close> is not among the sources: its functions are parameters, applied to
  the values the code passes them.
\<close>

record generator_util =
  toCamelCase :: "json option \<Rightarrow> string"
  capitalize :: "string \<Rightarrow> string"
  getTypeScriptType :: "json option \<Rightarrow> string"

text \<open>\<open>v?.[i]\<close> with a number \<open>i\<close>\<close>

definition optIndex :: "json option \<Rightarrow> nat \<Rightarrow> json option" where
  "optIndex v i =
     (case v of
        Some (JArr xs) \<Rightarrow> (if i < length xs then Some (xs ! i) else None)
      | Some (JStr s) \<Rightarrow> (if i < length s then Some (JStr [s ! i]) else None)
      | Some (JObj kvs) \<Rightarrow> map_of kvs (showNat i)
      | _ \<Rightarrow> None)"

text \<open>
  \<open>headerItems.map(item => item.enum?.[0])\<close>: \<open>item.enum\<close> on \<open>null\<close> is a
  \<open>TypeError\<close>.
\<close>

fun headerEnumOf :: "json list \<Rightarrow> error + json option list" where
  "headerEnumOf [] = Inr []"
| "headerEnumOf (item # items) =
     (if item = JNull then Inl TypeError
      else (case headerEnumOf items of
              Inl e \<Rightarrow> Inl e
            | Inr hs \<Rightarrow> Inr (optIndex (getProp item ''enum'') 0 # hs)))"

definition headerEnum :: "json \<Rightarrow> error + json option list" where
  "headerEnum blockSchema =
     (case optPath blockSchema [''properties'', ''header'', ''items''] of
        Some (JArr headerItems) \<Rightarrow> headerEnumOf headerItems
      | _ \<Rightarrow> Inr [])"

definition nl :: string where
  "nl = [CHR 0x0A]"

text \<open>The text one callback of \<open>headerEnum.map((header, index) => ...)\<close> returns.\<close>

definition rowAccessor :: "generator_util \<Rightarrow> json \<Rightarrow> json option \<Rightarrow> nat \<Rightarrow> string" where
  "rowAccessor gu blockSchema header index =
     (let camelCaseHeader = toCamelCase gu header;
          validVarName =
            (if camelCaseHeader \<noteq> [] \<and> isDigit (hd camelCaseHeader)
             then CHR ''_'' # camelCaseHeader else camelCaseHeader);
          tsType = getTypeScriptType gu
            (optProp (optIndex (optPath blockSchema [''properties'', ''rows'', ''items'', ''items'']) index)
               ''type'')
      in nl @ nl
         @ ''    get'' @ capitalize gu camelCaseHeader @ ''(): '' @ tsType @ '' {'' @ nl
         @ ''            '' @ nl
         @ ''        return this['' @ showNat index @ ''] as '' @ tsType @ '';'' @ nl
         @ ''    }'' @ nl
         @ nl
         @ ''    set'' @ capitalize gu camelCaseHeader @ ''('' @ validVarName @ '': '' @ tsType
         @ ''): void {'' @ nl
         @ ''        this['' @ showNat index @ ''] = '' @ validVarName @ '';'' @ nl
         @ ''    }'')"

fun rowAccessors_from :: "generator_util \<Rightarrow> json \<Rightarrow> nat \<Rightarrow> json option list \<Rightarrow> string list" where
  "rowAccessors_from gu blockSchema index [] = []"
| "rowAccessors_from gu blockSchema index (header # hs) =
     rowAccessor gu blockSchema header index # rowAccessors_from gu blockSchema (Suc index) hs"

text \<open>
  The accessor texts of \<open>TableGeneratorUtil.generate\<close>, one per header entry, before
  \<open>join\<close> puts them into the row class.
\<close>

definition rowAccessors :: "generator_util \<Rightarrow> json \<Rightarrow> error + string list" where
  "rowAccessors gu blockSchema =
     (case headerEnum blockSchema of
        Inl e \<Rightarrow> Inl e
      | Inr hs \<Rightarrow> Inr (rowAccessors_from gu blockSchema 0 hs))"

fun joinWith :: "string \<Rightarrow> string list \<Rightarrow> string" where
  "joinWith sep [] = []"
| "joinWith sep [x] = x"
| "joinWith sep (x # y # ys) = x @ sep @ joinWith sep (y # ys)"

definition gettersSetters :: "generator_util \<Rightarrow> json \<Rightarrow> error + string" where
  "gettersSetters gu blockSchema =
     (case rowAccessors gu blockSchema of
        Inl e \<Rightarrow> Inl e
      | Inr texts \<Rightarrow> Inr (joinWith nl texts))"

section \<open>Properties of the tabular front-end\<close>

text \<open>
  C1 (scenario A). The sheet with the block header \<open>employee_table\<close>, the meta row
  \<open>name, null_allowed, type\<close> and the field rows \<open>id, No, number\<close> and
  \<open>label, Yes, string\<close> is parsed into one table block, and the sheet schema holds for
  it one block schema whose header is the tuple of the string enums \<open>id\<close>, \<open>label\<close>
  and whose row columns are \<open>{type: number}\<close>, \<open>{type: [string, null]}\<close>, in this
  order, whatever the number functions are.
\<close>

theorem scenarioA_table_schema:
  "map name (parseBlocksInSheet scenarioA) = [''employee_table'']
   \<and> map entity (parseBlocksInSheet scenarioA) = [''table'']
   \<and> optPath (buildSheetSchema js scenarioA_sheet)
        [''properties'', ''blocks'', ''items'', ''oneOf'', ''length''] = Some (JNum (Finite 1))
   \<and> optPath (buildSheetSchema js scenarioA_sheet)
        [''properties'', ''blocks'', ''items'', ''oneOf'', ''0'', ''properties'', ''header'', ''items'']
      = Some (JArr [JObj [(''type'', JStr ''string''), (''enum'', JArr [JStr ''id''])],
                    JObj [(''type'', JStr ''string''), (''enum'', JArr [JStr ''label''])]])
   \<and> optPath (buildSheetSchema js scenarioA_sheet)
        [''properties'', ''blocks'', ''items'', ''oneOf'', ''0'', ''properties'', ''header'', ''minItems'']
      = Some (JNum (Finite 2))
   \<and> optPath (buildSheetSchema js scenarioA_sheet)
        [''properties'', ''blocks'', ''items'', ''oneOf'', ''0'', ''properties'', ''header'', ''maxItems'']
      = Some (JNum (Finite 2))
   \<and> optPath (buildSheetSchema js scenarioA_sheet)
        [''properties'', ''blocks'', ''items'', ''oneOf'', ''0'', ''properties'', ''rows'', ''items'', ''items'']
      = Some (JArr [JObj [(''type'', JStr ''number'')],
                    JObj [(''type'', JArr [JStr ''string'', JStr ''null''])]])"
  by code_simp

text \<open>
  C8, as the code has it. The type constraint of a parsed field is decided by the
  trimmed texts of its type cell and its nullability cell. With a type text, only a
  nullability text that is \<open>no\<close> in any letter case keeps the scalar type; any other
  text, the empty one of a missing column included, gives the union of the type with
  \<open>null\<close>. Without a type text the constraint is the scalar \<open>string\<close>, whatever the
  nullability cell holds.
\<close>

theorem field_nullability:
  "getProp (buildFieldSchema js (parseFieldRow row metaCols)) ''type'' =
     Some (if type (parseFieldRow row metaCols) = [] then JStr ''string''
           else if toLowerCase (nullAllowed (parseFieldRow row metaCols)) = ''no''
           then JStr (type (parseFieldRow row metaCols))
           else JArr [JStr (type (parseFieldRow row metaCols)), JStr ''null''])
   \<and> nullAllowed (parseFieldRow row metaCols) =
       (case metaCols ''null_allowed'' of
          None \<Rightarrow> []
        | Some idx \<Rightarrow> trim (cellText (cellAt row idx)))
   \<and> type (parseFieldRow row metaCols) =
       (case metaCols ''type'' of
          None \<Rightarrow> []
        | Some idx \<Rightarrow> trim (cellText (cellAt row idx)))"
proof -
  have no_empty: "toLowerCase [] \<noteq> ''no''"
    by (simp add: toLowerCase_def)
  have "getProp (buildFieldSchema js bf) ''type'' =
     Some (if type bf = [] then JStr ''string''
           else if toLowerCase (nullAllowed bf) = ''no'' then JStr (type bf)
           else JArr [JStr (type bf), JStr ''null''])" for bf
    using no_empty by (cases "nullAllowed bf = []") (simp_all add: buildFieldSchema_def)
  then show ?thesis
    by (simp add: parseFieldRow_def getSafeVal_def)
qed

text \<open>The theorem at a field row with \<open>NO\<close> between blanks, and at one with \<open>Yes\<close>.\<close>

theorem field_nullability_witness:
  "getProp (buildFieldSchema intCells
      (parseFieldRow [Text ''label'', Text '' NO '', Text ''string'']
         (findMetaColumns [Text ''name'', Text ''null_allowed'', Text ''type''])))
     ''type'' = Some (JStr ''string'')
   \<and> getProp (buildFieldSchema intCells
      (parseFieldRow [Text ''label'', Text ''Yes'', Text ''string'']
         (findMetaColumns [Text ''name'', Text ''null_allowed'', Text ''type''])))
     ''type'' = Some (JArr [JStr ''string'', JStr ''null''])"
  using field_nullability [of intCells "[Text ''label'', Text '' NO '', Text ''string'']"
      "findMetaColumns [Text ''name'', Text ''null_allowed'', Text ''type'']"]
    field_nullability [of intCells "[Text ''label'', Text ''Yes'', Text ''string'']"
      "findMetaColumns [Text ''name'', Text ''null_allowed'', Text ''type'']"]
  by (simp add: findMetaColumns_def metaKey_def toLowerCase_def toLowerChar_def trim_def
      isWhiteSpace_def cellAt_def)

text \<open>
  C8 as stated fails: a field row with the nullability \<open>Yes\<close> and no type cell gets
  the scalar \<open>{type: string}\<close>, not a union with \<open>null\<close>.
\<close>

theorem undeclared_type_counterexample:
  "toLowerCase (nullAllowed (parseFieldRow [Text ''id'', Text ''Yes'']
       (findMetaColumns [Text ''name'', Text ''null_allowed'', Text ''type'']))) \<noteq> ''no''
   \<and> buildFieldSchema intCells (parseFieldRow [Text ''id'', Text ''Yes'']
       (findMetaColumns [Text ''name'', Text ''null_allowed'', Text ''type'']))
     = JObj [(''type'', JStr ''string'')]"
  by code_simp

section \<open>Properties of the table block\<close>

text \<open>
  A stand-in for \<open>GeneratorUtil\<close> that leaves names and type names as they are; it
  instantiates the theorems, which hold for every \<open>generator_util\<close>.
\<close>

definition plainUtil :: generator_util where
  "plainUtil =
     \<lparr> toCamelCase = (\<lambda>h. case h of Some (JStr s) \<Rightarrow> s | _ \<Rightarrow> []),
       capitalize = (\<lambda>s. s),
       getTypeScriptType = (\<lambda>t. case t of Some (JStr s) \<Rightarrow> s | _ \<Rightarrow> ''any'') \<rparr>"

lemma optPath_table_header:
  "optPath (buildTableBlockSchema js block) [''properties'', ''header'', ''items'']
     = Some (JArr (map (\<lambda>f. stringEnum (fieldName f)) (blockFields block)))"
  by (simp add: buildTableBlockSchema_def optPath_def optProp_def Let_def)

lemma optPath_table_header_sizes:
  "optPath (buildTableBlockSchema js block) [''properties'', ''header'', ''minItems'']
     = Some (JNum (Finite (int (length (blockFields block)))))
   \<and> optPath (buildTableBlockSchema js block) [''properties'', ''header'', ''maxItems'']
     = Some (JNum (Finite (int (length (blockFields block)))))"
  by (simp add: buildTableBlockSchema_def optPath_def optProp_def Let_def)

lemma optPath_table_rows:
  "optPath (buildTableBlockSchema js block) [''properties'', ''rows'', ''items'', ''items'']
     = Some (JArr (map (buildFieldSchema js) (blockFields block)))"
  by (simp add: buildTableBlockSchema_def optPath_def optProp_def Let_def)

lemma optPath_table_rows_sizes:
  "optPath (buildTableBlockSchema js block) [''properties'', ''rows'', ''items'', ''minItems'']
     = Some (JNum (Finite (int (length (blockFields block)))))
   \<and> optPath (buildTableBlockSchema js block) [''properties'', ''rows'', ''items'', ''maxItems'']
     = Some (JNum (Finite (int (length (blockFields block)))))"
  by (simp add: buildTableBlockSchema_def optPath_def optProp_def Let_def)

lemma headerEnumOf_stringEnum:
  "headerEnumOf (map (\<lambda>f. stringEnum (fieldName f)) fs)
     = Inr (map (\<lambda>f. Some (JStr (fieldName f))) fs)"
  by (induction fs) (simp_all add: stringEnum_def optIndex_def)

lemma headerEnum_table:
  "headerEnum (buildTableBlockSchema js block)
     = Inr (map (\<lambda>f. Some (JStr (fieldName f))) (blockFields block))"
  by (simp add: headerEnum_def optPath_table_header headerEnumOf_stringEnum)

lemma length_rowAccessors_from:
  "length (rowAccessors_from gu S k hs) = length hs"
  by (induction hs arbitrary: k) simp_all

lemma nth_rowAccessors_from:
  "i < length hs \<Longrightarrow> rowAccessors_from gu S k hs ! i = rowAccessor gu S (hs ! i) (k + i)"
proof (induction hs arbitrary: k i)
  case Nil
  then show ?case by simp
next
  case (Cons h hs)
  show ?case
  proof (cases i)
    case 0
    then show ?thesis by simp
  next
    case (Suc j)
    with Cons.prems have "j < length hs" by simp
    from Cons.IH [OF this, of "Suc k"] Suc show ?thesis by simp
  qed
qed

lemma five_parts:
  "x = a @ r @ b @ w @ c \<Longrightarrow> \<exists>pre mid post. x = pre @ r @ mid @ w @ post"
  by blast

lemma rowAccessor_text:
  "rowAccessor gu S h i =
     (nl @ nl @ ''    get'' @ capitalize gu (toCamelCase gu h) @ ''(): ''
       @ getTypeScriptType gu
           (optProp (optIndex (optPath S [''properties'', ''rows'', ''items'', ''items'']) i) ''type'')
       @ '' {'' @ nl @ ''            '' @ nl @ ''        '')
     @ (''return this['' @ showNat i @ '']'')
     @ ('' as '' @ getTypeScriptType gu
           (optProp (optIndex (optPath S [''properties'', ''rows'', ''items'', ''items'']) i) ''type'')
        @ '';'' @ nl @ ''    }'' @ nl @ nl @ ''    set'' @ capitalize gu (toCamelCase gu h) @ ''(''
        @ (if toCamelCase gu h \<noteq> [] \<and> isDigit (hd (toCamelCase gu h))
           then CHR ''_'' # toCamelCase gu h else toCamelCase gu h)
        @ '': '' @ getTypeScriptType gu
           (optProp (optIndex (optPath S [''properties'', ''rows'', ''items'', ''items'']) i) ''type'')
        @ ''): void {'' @ nl @ ''        '')
     @ (''this['' @ showNat i @ ''] = '')
     @ ((if toCamelCase gu h \<noteq> [] \<and> isDigit (hd (toCamelCase gu h))
           then CHR ''_'' # toCamelCase gu h else toCamelCase gu h) @ '';'' @ nl @ ''    }'')"
  by (simp add: rowAccessor_def Let_def)

text \<open>
  C3. For a table block with \<open>N\<close> fields the header schema is the tuple of the \<open>N\<close>
  string enums of the field names in field order, with \<open>minItems = maxItems = N\<close>; the
  row schema is the tuple of the \<open>N\<close> field schemas in the same order, with the same
  bounds; and the row class gets \<open>N\<close> accessor texts, the \<open>i\<close>-th made from the
  \<open>i\<close>-th field name, the type of column \<open>i\<close> and the index \<open>i\<close>: its getter returns
  \<open>this[i]\<close> and its setter assigns \<open>this[i]\<close>.
\<close>

theorem table_block_positional:
  "optPath (buildTableBlockSchema js block) [''properties'', ''header'', ''items'']
     = Some (JArr (map (\<lambda>f. stringEnum (fieldName f)) (blockFields block)))
   \<and> optPath (buildTableBlockSchema js block) [''properties'', ''header'', ''minItems'']
     = Some (JNum (Finite (int (length (blockFields block)))))
   \<and> optPath (buildTableBlockSchema js block) [''properties'', ''header'', ''maxItems'']
     = Some (JNum (Finite (int (length (blockFields block)))))
   \<and> optPath (buildTableBlockSchema js block) [''properties'', ''rows'', ''items'', ''items'']
     = Some (JArr (map (buildFieldSchema js) (blockFields block)))
   \<and> optPath (buildTableBlockSchema js block) [''properties'', ''rows'', ''items'', ''minItems'']
     = Some (JNum (Finite (int (length (blockFields block)))))
   \<and> optPath (buildTableBlockSchema js block) [''properties'', ''rows'', ''items'', ''maxItems'']
     = Some (JNum (Finite (int (length (blockFields block)))))
   \<and> (\<exists>texts. rowAccessors gu (buildTableBlockSchema js block) = Inr texts
        \<and> length texts = length (blockFields block)
        \<and> (\<forall>i < length (blockFields block).
              texts ! i = rowAccessor gu (buildTableBlockSchema js block)
                            (Some (JStr (fieldName (blockFields block ! i)))) i
              \<and> (\<exists>pre mid post.
                    texts ! i = pre @ (''return this['' @ showNat i @ '']'') @ mid
                                  @ (''this['' @ showNat i @ ''] = '') @ post)
              \<and> optProp (optIndex (optPath (buildTableBlockSchema js block)
                             [''properties'', ''rows'', ''items'', ''items'']) i) ''type''
                  = getProp (buildFieldSchema js (blockFields block ! i)) ''type''))"
proof -
  let ?S = "buildTableBlockSchema js block"
  let ?fs = "blockFields block"
  let ?texts = "rowAccessors_from gu ?S 0 (map (\<lambda>f. Some (JStr (fieldName f))) ?fs)"
  have acc: "rowAccessors gu ?S = Inr ?texts"
    by (simp add: rowAccessors_def headerEnum_table)
  have len: "length ?texts = length ?fs"
    by (simp add: length_rowAccessors_from)
  have nth: "?texts ! i = rowAccessor gu ?S (Some (JStr (fieldName (?fs ! i)))) i"
    if "i < length ?fs" for i
    using that nth_rowAccessors_from [of i "map (\<lambda>f. Some (JStr (fieldName f))) ?fs" gu ?S 0]
    by simp
  have this_i: "\<exists>pre mid post.
      ?texts ! i = pre @ (''return this['' @ showNat i @ '']'') @ mid
                     @ (''this['' @ showNat i @ ''] = '') @ post"
    if "i < length ?fs" for i
    unfolding nth [OF that] by (rule five_parts) (rule rowAccessor_text)
  have col: "optProp (optIndex (optPath ?S [''properties'', ''rows'', ''items'', ''items'']) i) ''type''
      = getProp (buildFieldSchema js (?fs ! i)) ''type''"
    if "i < length ?fs" for i
    using that by (simp add: optPath_table_rows optIndex_def optProp_def buildFieldSchema_def)
  from acc len nth this_i col show ?thesis
    using optPath_table_header optPath_table_header_sizes optPath_table_rows
      optPath_table_rows_sizes by blast
qed


text \<open>The theorem at the table block of scenario A, for its second field.\<close>

theorem table_block_positional_witness:
  "\<exists>texts. rowAccessors plainUtil (buildTableBlockSchema intCells (parseBlocksInSheet scenarioA ! 0))
       = Inr texts
     \<and> length texts = 2
     \<and> texts ! 1 = rowAccessor plainUtil
           (buildTableBlockSchema intCells (parseBlocksInSheet scenarioA ! 0))
           (Some (JStr ''label'')) 1
     \<and> (\<exists>pre mid post.
           texts ! 1 = pre @ (''return this['' @ showNat 1 @ '']'') @ mid
                         @ (''this['' @ showNat 1 @ ''] = '') @ post)"
proof -
  let ?b = "parseBlocksInSheet scenarioA ! 0"
  have n: "length (blockFields ?b) = 2"
    by code_simp
  have f1: "fieldName (blockFields ?b ! 1) = ''label''"
    by code_simp
  from table_block_positional [of intCells ?b plainUtil]
  obtain texts where t: "rowAccessors plainUtil (buildTableBlockSchema intCells ?b) = Inr texts"
    "length texts = length (blockFields ?b)"
    "\<forall>i < length (blockFields ?b).
              texts ! i = rowAccessor plainUtil (buildTableBlockSchema intCells ?b)
                            (Some (JStr (fieldName (blockFields ?b ! i)))) i
              \<and> (\<exists>pre mid post.
                    texts ! i = pre @ (''return this['' @ showNat i @ '']'') @ mid
                                  @ (''this['' @ showNat i @ ''] = '') @ post)
              \<and> optProp (optIndex (optPath (buildTableBlockSchema intCells ?b)
                             [''properties'', ''rows'', ''items'', ''items'']) i) ''type''
                  = getProp (buildFieldSchema intCells (blockFields ?b ! i)) ''type''"
    by blast
  have "1 < length (blockFields ?b)"
    using n by simp
  from t(3) [rule_format, OF this]
  have a: "texts ! 1 = rowAccessor plainUtil (buildTableBlockSchema intCells ?b)
                            (Some (JStr (fieldName (blockFields ?b ! 1)))) 1"
    and b: "\<exists>pre mid post.
                    texts ! 1 = pre @ (''return this['' @ showNat 1 @ '']'') @ mid
                                  @ (''this['' @ showNat 1 @ ''] = '') @ post"
    by blast+
  have l: "length texts = 2"
    using t(2) n by simp
  from t(1) l a [unfolded f1] b show ?thesis
    by blast
qed

section \<open>Reference resolver\<close>

text \<open>
  \<open>resolvePointer\<close> reads \<open>current[part]\<close> for every segment of a pointer, whatever
  its name. Where the value has no own member of that name the read goes on to the
  members the value inherits from the built-in prototypes (\<open>constructor\<close>,
  \<open>toString\<close> and so on), and from a built-in object to its members. Which these
  are is the platform's matter, a parameter of the model: a read gives a value, or
  \<open>undefined\<close> (\<open>Inr None\<close>), or throws, as the accessor \<open>caller\<close> does that a
  built-in function inherits. A value a read gives is data of the model or a built-in
  value, known by a name: an object or function, a symbol, a number that is no
  integer. The built-in values are truthy. The values of a document have the built-in
  prototypes.
\<close>

datatype val = Data json | Builtin string

record platform =
  inheritedMember :: "json \<Rightarrow> string \<Rightarrow> error + val option"
  builtinMember :: "string \<Rightarrow> string \<Rightarrow> error + val option"

fun truthyVal :: "val \<Rightarrow> bool" where
  "truthyVal (Data v) = truthy v"
| "truthyVal (Builtin b) = True"

text \<open>\<open>current[part]\<close>: the own member, or else the inherited one.\<close>

fun readMember :: "platform \<Rightarrow> val \<Rightarrow> string \<Rightarrow> error + val option" where
  "readMember pf (Data v) k =
     (case getProp v k of
        Some w \<Rightarrow> Inr (Some (Data w))
      | None \<Rightarrow> inheritedMember pf v k)"
| "readMember pf (Builtin b) k = builtinMember pf b k"

text \<open>
  What \<open>while (node.$ref)\<close> sees: no \<open>$ref\<close> or a falsy one, a non-empty string, or
  a truthy value that is no string (on which \<open>ref.startsWith\<close> is a \<open>TypeError\<close>).
  No built-in object has a member \<open>$ref\<close>.
\<close>

datatype ref_mark = NoRef | Ref string | BadRef

definition refOf :: "json \<Rightarrow> ref_mark" where
  "refOf node =
     (case getProp node ''$ref'' of
        None \<Rightarrow> NoRef
      | Some (JStr s) \<Rightarrow> (if s = [] then NoRef else Ref s)
      | Some v \<Rightarrow> (if truthy v then BadRef else NoRef))"

fun refOfVal :: "val \<Rightarrow> ref_mark" where
  "refOfVal (Data v) = refOf v"
| "refOfVal (Builtin b) = NoRef"

text \<open>
  \<open>resolvePointer\<close>: the loop over the segments of the pointer, the text after \<open>#/\<close>.
  The error carries that text, as the message does. Reading a member of the root
  \<open>null\<close> is a \<open>TypeError\<close>.
\<close>

fun resolveParts :: "platform \<Rightarrow> string \<Rightarrow> val \<Rightarrow> string list \<Rightarrow> error + val" where
  "resolveParts pf pointer current [] = Inr current"
| "resolveParts pf pointer current (part # parts) =
     (case readMember pf current part of
        Inl e \<Rightarrow> Inl e
      | Inr None \<Rightarrow> Inl (UnresolvedPointer pointer)
      | Inr (Some v) \<Rightarrow>
          (if truthyVal v then resolveParts pf pointer v parts
           else Inl (UnresolvedPointer pointer)))"

definition resolvePointer :: "platform \<Rightarrow> string \<Rightarrow> json \<Rightarrow> error + val" where
  "resolvePointer pf pointer rootSchema =
     (if rootSchema = JNull then Inl TypeError
      else resolveParts pf pointer (Data rootSchema) (splitOn CHR ''/'' pointer))"

text \<open>
  The loop of \<open>resolveIfRef\<close>. It has no cycle guard and need not end: \<open>None\<close> is
  the run that never returns.
\<close>

partial_function (option) followRefs :: "platform \<Rightarrow> val \<Rightarrow> json \<Rightarrow> (error + val) option" where
  "followRefs pf node rootSchema =
     (case refOfVal node of
        NoRef \<Rightarrow> Some (Inr node)
      | BadRef \<Rightarrow> Some (Inl TypeError)
      | Ref ref \<Rightarrow>
          (if startsWith ref ''#/'' then
             (case resolvePointer pf (drop 2 ref) rootSchema of
                Inl e \<Rightarrow> Some (Inl e)
              | Inr target \<Rightarrow> followRefs pf target rootSchema)
           else Some (Inl (UnsupportedRef ref))))"

definition resolveIfRef :: "platform \<Rightarrow> json \<Rightarrow> json \<Rightarrow> (error + val) option" where
  "resolveIfRef pf node rootSchema =
     (if \<not> truthy node then Some (Inr (Data node)) else followRefs pf (Data node) rootSchema)"

text \<open>
  A fragment of the ECMAScript platform: of the inherited members only
  \<open>constructor\<close>, and of the members of the five constructors only \<open>name\<close> and
  \<open>length\<close>. The theorems below hold for every platform; this one instantiates them.
\<close>

definition constructorPlatform :: platform where
  "constructorPlatform =
     \<lparr> inheritedMember = (\<lambda>v k.
         if k = ''constructor'' then
           (case v of
              JNull \<Rightarrow> Inr None
            | JBool b \<Rightarrow> Inr (Some (Builtin ''Boolean''))
            | JNum n \<Rightarrow> Inr (Some (Builtin ''Number''))
            | JStr s \<Rightarrow> Inr (Some (Builtin ''String''))
            | JArr xs \<Rightarrow> Inr (Some (Builtin ''Array''))
            | JObj kvs \<Rightarrow> Inr (Some (Builtin ''Object'')))
         else Inr None),
       builtinMember = (\<lambda>b k.
         if k = ''name'' then Inr (Some (Data (JStr b)))
         else if k = ''length'' then Inr (Some (Data (JNum (Finite 1))))
         else Inr None) \<rparr>"

text \<open>The document of scenario C: \<open>A\<close> refers to \<open>B\<close>, \<open>B\<close> to \<open>C\<close>.\<close>

definition scenarioC :: json where
  "scenarioC = JObj
     [(''A'', JObj [(''$ref'', JStr ''#/B'')]),
      (''B'', JObj [(''$ref'', JStr ''#/C'')]),
      (''C'', JObj [(''type'', JStr ''object'')])]"

text \<open>
  The value a path of segments designates in a document through own members, member by
  member; \<open>None\<close> when a segment names no own member of the value reached.
\<close>

fun walk :: "json \<Rightarrow> string list \<Rightarrow> json option" where
  "walk v [] = Some v"
| "walk v (k # ks) = (case getProp v k of None \<Rightarrow> None | Some w \<Rightarrow> walk w ks)"

text \<open>
  The value a path of segments designates through the members \<open>current[part]\<close> finds,
  own or inherited; \<open>Inr None\<close> when a segment names no member of the value reached,
  and the error when reading a segment throws.
\<close>

fun reach :: "platform \<Rightarrow> val \<Rightarrow> string list \<Rightarrow> error + val option" where
  "reach pf v [] = Inr (Some v)"
| "reach pf v (k # ks) =
     (case readMember pf v k of
        Inl e \<Rightarrow> Inl e
      | Inr None \<Rightarrow> Inr None
      | Inr (Some w) \<Rightarrow> reach pf w ks)"

text \<open>
  \<open>n\<close> refers to \<open>m\<close>: its \<open>$ref\<close> is a local pointer that designates the node \<open>m\<close>.
  A path of references is a list of nodes, each referring to the next; a chain is a
  path whose last node has no \<open>$ref\<close>.
\<close>

definition pointsTo :: "json \<Rightarrow> json \<Rightarrow> json \<Rightarrow> bool" where
  "pointsTo rootSchema n m =
     (case refOf n of
        Ref ref \<Rightarrow> startsWith ref ''#/'' \<and> truthy m
                   \<and> walk rootSchema (splitOn CHR ''/'' (drop 2 ref)) = Some m
      | _ \<Rightarrow> False)"

fun refPath :: "json \<Rightarrow> json list \<Rightarrow> bool" where
  "refPath rootSchema [] = False"
| "refPath rootSchema [n] = True"
| "refPath rootSchema (n # m # ns) = (pointsTo rootSchema n m \<and> refPath rootSchema (m # ns))"

definition refChain :: "json \<Rightarrow> json list \<Rightarrow> bool" where
  "refChain rootSchema ns = (refPath rootSchema ns \<and> refOf (last ns) = NoRef)"

lemma splitOn_nonempty: "splitOn sep s \<noteq> []"
  by (induction s) (auto split: list.splits)

lemma parseIndex_length: "parseIndex ''length'' = None"
  by (simp add: parseIndex_def isDigit_def)

lemma getProp_falsy: "\<not> truthy v \<Longrightarrow> getProp v k = Some w \<Longrightarrow> w = JNum (Finite 0)"
  by (cases v) (auto simp: parseIndex_length split: option.splits if_splits)

lemma walk_falsy: "\<not> truthy v \<Longrightarrow> walk v ks = Some m \<Longrightarrow> \<not> truthy m"
proof (cases ks)
  case Nil
  assume "\<not> truthy v" "walk v ks = Some m"
  with Nil show ?thesis by simp
next
  case (Cons k ks')
  assume f: "\<not> truthy v" and w: "walk v ks = Some m"
  from w Cons obtain u where u: "getProp v k = Some u" "walk u ks' = Some m"
    by (auto split: option.splits)
  from getProp_falsy [OF f u(1)] have "u = JNum (Finite 0)" .
  with u(2) show ?thesis by (cases ks') auto
qed

lemma walk_reach: "walk v ks = Some m \<Longrightarrow> reach pf (Data v) ks = Inr (Some (Data m))"
  by (induction ks arbitrary: v) (auto split: option.splits)

lemma resolveParts_absent:
  "reach pf v ks = Inr None \<Longrightarrow> resolveParts pf p v ks = Inl (UnresolvedPointer p)"
  by (induction ks arbitrary: v) (auto split: option.splits sum.splits)

lemma resolveParts_reach_falsy:
  "reach pf v (take i ks) = Inr (Some w) \<Longrightarrow> \<not> truthyVal w \<Longrightarrow> 0 < i \<Longrightarrow> i \<le> length ks
     \<Longrightarrow> resolveParts pf p v ks = Inl (UnresolvedPointer p)"
proof (induction ks arbitrary: v i)
  case Nil
  then show ?case by simp
next
  case (Cons k ks)
  from Cons.prems(3) obtain j where i: "i = Suc j" by (cases i) auto
  with Cons.prems(1) obtain u where u: "readMember pf v k = Inr (Some u)"
      "reach pf u (take j ks) = Inr (Some w)"
    by (auto split: option.splits sum.splits)
  show ?case
  proof (cases j)
    case 0
    with u Cons.prems(2) show ?thesis by simp
  next
    case (Suc j')
    with u Cons.prems i Cons.IH [of u j] show ?thesis by simp
  qed
qed

lemma resolveParts_falsy:
  "walk v (take i ks) = Some w \<Longrightarrow> \<not> truthy w \<Longrightarrow> 0 < i \<Longrightarrow> i \<le> length ks
     \<Longrightarrow> resolveParts pf p (Data v) ks = Inl (UnresolvedPointer p)"
  using resolveParts_reach_falsy [of pf "Data v" i ks "Data w" p] walk_reach [of v "take i ks" w pf]
  by simp

lemma resolveParts_walk:
  "walk v ks = Some m \<Longrightarrow> truthy m \<Longrightarrow> resolveParts pf p (Data v) ks = Inr (Data m)"
proof (induction ks arbitrary: v)
  case Nil
  then show ?case by simp
next
  case (Cons k ks)
  from Cons.prems(1) obtain w where w: "getProp v k = Some w" "walk w ks = Some m"
    by (auto split: option.splits)
  have "truthy w"
    using walk_falsy [OF _ w(2)] Cons.prems(2) by blast
  with w Cons.IH [OF w(2) Cons.prems(2)] show ?case by simp
qed

lemma resolveParts_Inr:
  "resolveParts pf p v ks = Inr m \<Longrightarrow> 0 < i \<Longrightarrow> i \<le> length ks
     \<Longrightarrow> \<exists>w. reach pf v (take i ks) = Inr (Some w) \<and> truthyVal w"
proof (induction ks arbitrary: v i)
  case Nil
  then show ?case by simp
next
  case (Cons k ks)
  from Cons.prems(1) obtain u where u: "readMember pf v k = Inr (Some u)" "truthyVal u"
      "resolveParts pf p u ks = Inr m"
    by (auto split: option.splits sum.splits if_splits)
  from Cons.prems(2) obtain j where i: "i = Suc j" by (cases i) auto
  show ?case
  proof (cases j)
    case 0
    with u i show ?thesis by simp
  next
    case (Suc j')
    with Cons.IH [OF u(3), of j] Cons.prems(3) i u(1) show ?thesis by simp
  qed
qed

lemma resolvePointer_walk:
  "walk rootSchema (splitOn CHR ''/'' p) = Some m \<Longrightarrow> truthy m
     \<Longrightarrow> resolvePointer pf p rootSchema = Inr (Data m)"
proof -
  assume w: "walk rootSchema (splitOn CHR ''/'' p) = Some m" and t: "truthy m"
  have "rootSchema \<noteq> JNull"
    using w splitOn_nonempty [of "CHR ''/''" p]
    by (cases "splitOn CHR ''/'' p") auto
  with w t show ?thesis
    by (simp add: resolvePointer_def resolveParts_walk)
qed

lemma pointsTo_step:
  "pointsTo rootSchema n m \<Longrightarrow> followRefs pf (Data n) rootSchema = followRefs pf (Data m) rootSchema"
proof -
  assume pt: "pointsTo rootSchema n m"
  then obtain ref where r: "refOf n = Ref ref" "startsWith ref ''#/''" "truthy m"
      "walk rootSchema (splitOn CHR ''/'' (drop 2 ref)) = Some m"
    by (auto simp: pointsTo_def split: ref_mark.splits)
  from r(4,3) have "resolvePointer pf (drop 2 ref) rootSchema = Inr (Data m)"
    by (rule resolvePointer_walk)
  with r(1,2) show ?thesis
    by (subst followRefs.simps) simp
qed

lemma refPath_follow:
  "refPath rootSchema ns \<Longrightarrow>
     followRefs pf (Data (hd ns)) rootSchema = followRefs pf (Data (last ns)) rootSchema"
proof (induction rootSchema ns rule: refPath.induct)
  case (1 rootSchema)
  then show ?case by simp
next
  case (2 rootSchema n)
  show ?case by simp
next
  case (3 rootSchema n m ns)
  from "3.prems" have pt: "pointsTo rootSchema n m" and rest: "refPath rootSchema (m # ns)"
    by simp_all
  have "followRefs pf (Data n) rootSchema = followRefs pf (Data m) rootSchema"
    using pt by (rule pointsTo_step)
  also have "\<dots> = followRefs pf (Data (last (m # ns))) rootSchema"
    using "3.IH" [OF rest] by simp
  finally show ?case by simp
qed

lemma refOf_falsy: "\<not> truthy v \<Longrightarrow> refOf v = NoRef"
  by (cases v) (auto simp: refOf_def parseIndex_def isDigit_def)

lemma resolveIfRef_follow: "resolveIfRef pf node rootSchema = followRefs pf (Data node) rootSchema"
proof (cases "truthy node")
  case True
  then show ?thesis by (simp add: resolveIfRef_def)
next
  case False
  then show ?thesis by (subst followRefs.simps) (simp add: resolveIfRef_def refOf_falsy)
qed

lemma followRefs_NoRef:
  "refOfVal t = NoRef \<Longrightarrow> followRefs pf t rootSchema = Some (Inr t)"
  by (subst followRefs.simps) simp

lemma resolveIfRef_NoRef:
  "refOf n = NoRef \<Longrightarrow> resolveIfRef pf n rootSchema = Some (Inr (Data n))"
  unfolding resolveIfRef_follow by (subst followRefs.simps) simp

lemma resolveIfRef_Ref:
  "refOf n = Ref ref \<Longrightarrow> resolveIfRef pf n rootSchema =
     (if startsWith ref ''#/'' then
        (case resolvePointer pf (drop 2 ref) rootSchema of
           Inl e \<Rightarrow> Some (Inl e)
         | Inr target \<Rightarrow> followRefs pf target rootSchema)
      else Some (Inl (UnsupportedRef ref)))"
  unfolding resolveIfRef_follow by (subst followRefs.simps) simp

lemma follow_last_error:
  assumes "refPath rootSchema ns" and "followRefs pf (Data (last ns)) rootSchema = Some (Inl e)"
  shows "resolveIfRef pf (hd ns) rootSchema = Some (Inl e)"
  using assms refPath_follow [of rootSchema ns pf] by (simp add: resolveIfRef_follow)

text \<open>
  C4. On a node without \<open>$ref\<close>, \<open>resolveIfRef\<close> returns the node. On the first node
  of a chain of local references it returns, and the result is the last node of the
  chain, which has no \<open>$ref\<close>. This holds on every platform.
\<close>

theorem resolveIfRef_chain:
  "(refOf node = NoRef \<longrightarrow> resolveIfRef pf node rootSchema = Some (Inr (Data node)))
   \<and> (refChain rootSchema ns \<longrightarrow>
        resolveIfRef pf (hd ns) rootSchema = Some (Inr (Data (last ns)))
        \<and> refOf (last ns) = NoRef)"
proof -
  have id: "resolveIfRef pf n rootSchema = Some (Inr (Data n))" if "refOf n = NoRef" for n
    using that by (rule resolveIfRef_NoRef)
  have "resolveIfRef pf (hd ns) rootSchema = Some (Inr (Data (last ns)))"
    if "refChain rootSchema ns"
    using that id [of "last ns"] refPath_follow [of rootSchema ns pf]
    by (simp add: refChain_def resolveIfRef_follow)
  with id show ?thesis
    by (auto simp: refChain_def)
qed

text \<open>
  Scenario C: a node that refers to \<open>A\<close> resolves, through \<open>B\<close>, to the contents of
  \<open>C\<close>; the node \<open>C\<close> resolves to itself.
\<close>

theorem resolveIfRef_chain_witness:
  "refChain scenarioC
     [JObj [(''$ref'', JStr ''#/A'')], JObj [(''$ref'', JStr ''#/B'')],
      JObj [(''$ref'', JStr ''#/C'')], JObj [(''type'', JStr ''object'')]]
   \<and> resolveIfRef constructorPlatform (JObj [(''$ref'', JStr ''#/A'')]) scenarioC
       = Some (Inr (Data (JObj [(''type'', JStr ''object'')])))
   \<and> walk scenarioC [''C''] = Some (JObj [(''type'', JStr ''object'')])
   \<and> resolveIfRef constructorPlatform (JObj [(''type'', JStr ''object'')]) scenarioC
       = Some (Inr (Data (JObj [(''type'', JStr ''object'')])))"
proof -
  have c: "refChain scenarioC
     [JObj [(''$ref'', JStr ''#/A'')], JObj [(''$ref'', JStr ''#/B'')],
      JObj [(''$ref'', JStr ''#/C'')], JObj [(''type'', JStr ''object'')]]"
    by code_simp
  have n: "refOf (JObj [(''type'', JStr ''object'')]) = NoRef"
    by code_simp
  have w: "walk scenarioC [''C''] = Some (JObj [(''type'', JStr ''object'')])"
    by code_simp
  from resolveIfRef_chain [where node = "JObj [(''type'', JStr ''object'')]"
      and pf = constructorPlatform and rootSchema = scenarioC
      and ns = "[JObj [(''$ref'', JStr ''#/A'')], JObj [(''$ref'', JStr ''#/B'')],
        JObj [(''$ref'', JStr ''#/C'')], JObj [(''type'', JStr ''object'')]]"] c n w
  show ?thesis by simp
qed

text \<open>A document with falsy members and an array.\<close>

definition falsyTargets :: json where
  "falsyTargets = JObj
     [(''definitions'', JObj
        [(''a'', JNull), (''b'', JNum (Finite 0)), (''c'', JBool False), (''d'', JStr [])]),
      (''list'', JArr [JObj [(''type'', JStr ''object'')]])]"

text \<open>
  C5, as the code has it. Where a path of references ends in a node whose \<open>$ref\<close> is a
  non-empty string that does not start with \<open>#/\<close>, \<open>resolveIfRef\<close> fails with the
  unsupported-reference error of that string. Where it ends in a node with a local
  pointer of which some segment names no member of the value reached from the root,
  it fails with the unresolved-pointer error that carries the pointer. A member of a
  value is an own member or one the value inherits on the platform; a mapping has the
  member \<open>k\<close> when \<open>k\<close> is one of its keys or the name of a member it inherits.
\<close>

theorem resolveIfRef_errors:
  "(refPath rootSchema ns \<and> refOf (last ns) = Ref ref \<and> \<not> startsWith ref ''#/''
      \<longrightarrow> resolveIfRef pf (hd ns) rootSchema = Some (Inl (UnsupportedRef ref)))
   \<and> (refPath rootSchema ns \<and> refOf (last ns) = Ref ref \<and> startsWith ref ''#/''
        \<and> rootSchema \<noteq> JNull
        \<and> reach pf (Data rootSchema) (splitOn CHR ''/'' (drop 2 ref)) = Inr None
      \<longrightarrow> resolveIfRef pf (hd ns) rootSchema = Some (Inl (UnresolvedPointer (drop 2 ref))))
   \<and> (getProp node ''$ref'' = Some (JStr ref) \<and> ref \<noteq> [] \<longrightarrow> refOf node = Ref ref)
   \<and> (readMember pf (Data (JObj kvs)) k = Inr None
        \<longleftrightarrow> k \<notin> fst ` set kvs \<and> inheritedMember pf (JObj kvs) k = Inr None)"
proof -
  have a: "followRefs pf (Data n) rootSchema = Some (Inl (UnsupportedRef ref))"
    if "refOf n = Ref ref" "\<not> startsWith ref ''#/''" for n
    using that by (subst followRefs.simps) simp
  have b: "followRefs pf (Data n) rootSchema = Some (Inl (UnresolvedPointer (drop 2 ref)))"
    if "refOf n = Ref ref" "startsWith ref ''#/''" "rootSchema \<noteq> JNull"
      "reach pf (Data rootSchema) (splitOn CHR ''/'' (drop 2 ref)) = Inr None" for n
  proof -
    from that(3,4)
    have "resolvePointer pf (drop 2 ref) rootSchema = Inl (UnresolvedPointer (drop 2 ref))"
      by (simp add: resolvePointer_def resolveParts_absent)
    with that(1,2) show ?thesis
      by (subst followRefs.simps) simp
  qed
  have c: "refOf node = Ref ref" if "getProp node ''$ref'' = Some (JStr ref)" "ref \<noteq> []"
    using that by (simp add: refOf_def)
  have d: "readMember pf (Data (JObj kvs)) k = Inr None
        \<longleftrightarrow> k \<notin> fst ` set kvs \<and> inheritedMember pf (JObj kvs) k = Inr None"
  proof (cases "map_of kvs k")
    case None
    then have "k \<notin> fst ` set kvs"
      by (simp add: map_of_eq_None_iff)
    with None show ?thesis by simp
  next
    case (Some a)
    from map_of_SomeD [OF Some] have "k \<in> fst ` set kvs"
      by force
    with Some show ?thesis by simp
  qed
  from a b c d show ?thesis
    using follow_last_error [of rootSchema ns pf] by blast
qed

text \<open>
  The theorem at a remote reference, and at scenario C with \<open>B\<close> removed.
\<close>

theorem resolveIfRef_errors_witness:
  "resolveIfRef constructorPlatform (JObj [(''$ref'', JStr ''http://example.com/schema.json'')])
       scenarioC
     = Some (Inl (UnsupportedRef ''http://example.com/schema.json''))
   \<and> resolveIfRef constructorPlatform (JObj [(''$ref'', JStr ''#/A'')])
       (JObj [(''A'', JObj [(''$ref'', JStr ''#/B'')]), (''C'', JObj [(''type'', JStr ''object'')])])
     = Some (Inl (UnresolvedPointer ''B''))"
proof -
  let ?n = "JObj [(''$ref'', JStr ''http://example.com/schema.json'')]"
  let ?broken = "JObj [(''A'', JObj [(''$ref'', JStr ''#/B'')]), (''C'', JObj [(''type'', JStr ''object'')])]"
  let ?ns = "[JObj [(''$ref'', JStr ''#/A'')], JObj [(''$ref'', JStr ''#/B'')]]"
  have 1: "refPath scenarioC [?n]" "refOf (last [?n]) = Ref ''http://example.com/schema.json''"
    "\<not> startsWith ''http://example.com/schema.json'' ''#/''"
    by code_simp+
  have 2: "refPath ?broken ?ns" "refOf (last ?ns) = Ref ''#/B''" "startsWith ''#/B'' ''#/''"
    "?broken \<noteq> JNull"
    "reach constructorPlatform (Data ?broken) (splitOn CHR ''/'' (drop 2 ''#/B'')) = Inr None"
    by code_simp+
  from resolveIfRef_errors [where rootSchema = scenarioC and ns = "[?n]"
      and ref = "''http://example.com/schema.json''" and pf = constructorPlatform] 1
  have "resolveIfRef constructorPlatform (hd [?n]) scenarioC
      = Some (Inl (UnsupportedRef ''http://example.com/schema.json''))"
    by blast
  moreover from resolveIfRef_errors [where rootSchema = ?broken and ns = ?ns
      and ref = "''#/B''" and pf = constructorPlatform] 2
  have "resolveIfRef constructorPlatform (hd ?ns) ?broken
      = Some (Inl (UnresolvedPointer (drop 2 ''#/B'')))"
    by blast
  ultimately show ?thesis by simp
qed

text \<open>
  C5 as stated fails three times. An empty \<open>$ref\<close> string does not start with \<open>#/\<close>,
  and the node is returned without an error. A segment that is an index of an array,
  and a key of no mapping, resolves to the element. A segment that is a key of no
  mapping and the name of an inherited member resolves to that member: the pointer
  \<open>#/constructor\<close> gives the constructor of objects.
\<close>

theorem resolveIfRef_errors_counterexample:
  "getProp (JObj [(''$ref'', JStr [])]) ''$ref'' = Some (JStr [])
   \<and> \<not> startsWith [] ''#/''
   \<and> resolveIfRef constructorPlatform (JObj [(''$ref'', JStr [])]) scenarioC
       = Some (Inr (Data (JObj [(''$ref'', JStr [])])))
   \<and> getProp falsyTargets ''list'' = Some (JArr [JObj [(''type'', JStr ''object'')]])
   \<and> resolveIfRef constructorPlatform (JObj [(''$ref'', JStr ''#/list/0'')]) falsyTargets
       = Some (Inr (Data (JObj [(''type'', JStr ''object'')])))
   \<and> getProp scenarioC ''constructor'' = None
   \<and> resolveIfRef constructorPlatform (JObj [(''$ref'', JStr ''#/constructor'')]) scenarioC
       = Some (Inr (Builtin ''Object''))"
proof -
  have "refOf (JObj [(''$ref'', JStr [])]) = NoRef"
    by code_simp
  then have 1: "resolveIfRef constructorPlatform (JObj [(''$ref'', JStr [])]) scenarioC
      = Some (Inr (Data (JObj [(''$ref'', JStr [])])))"
    by (rule resolveIfRef_NoRef)
  have "refOf (JObj [(''$ref'', JStr ''#/list/0'')]) = Ref ''#/list/0''"
    and "startsWith ''#/list/0'' ''#/''"
    and "resolvePointer constructorPlatform (drop 2 ''#/list/0'') falsyTargets
      = Inr (Data (JObj [(''type'', JStr ''object'')]))"
    and "refOfVal (Data (JObj [(''type'', JStr ''object'')])) = NoRef"
    by code_simp+
  then have 2: "resolveIfRef constructorPlatform (JObj [(''$ref'', JStr ''#/list/0'')]) falsyTargets
       = Some (Inr (Data (JObj [(''type'', JStr ''object'')])))"
    by (simp add: resolveIfRef_Ref followRefs_NoRef)
  have "refOf (JObj [(''$ref'', JStr ''#/constructor'')]) = Ref ''#/constructor''"
    and "startsWith ''#/constructor'' ''#/''"
    and "resolvePointer constructorPlatform (drop 2 ''#/constructor'') scenarioC
      = Inr (Builtin ''Object'')"
    and "refOfVal (Builtin ''Object'') = NoRef"
    by code_simp+
  then have 3: "resolveIfRef constructorPlatform (JObj [(''$ref'', JStr ''#/constructor'')]) scenarioC
       = Some (Inr (Builtin ''Object''))"
    by (simp add: resolveIfRef_Ref followRefs_NoRef)
  have 4: "getProp (JObj [(''$ref'', JStr [])]) ''$ref'' = Some (JStr [])"
    "\<not> startsWith [] ''#/''"
    "getProp falsyTargets ''list'' = Some (JArr [JObj [(''type'', JStr ''object'')]])"
    "getProp scenarioC ''constructor'' = None"
    by code_simp+
  from 1 2 3 4 show ?thesis by simp
qed

text \<open>
  C10. Where a path of references ends in a node with a local pointer, and the value
  at some segment of the pointer exists and is falsy, \<open>resolveIfRef\<close> fails with the
  unresolved-pointer error. So where \<open>resolvePointer\<close> returns a value, the value at
  every segment of the pointer exists and is truthy. This holds on every platform.
\<close>

theorem falsy_value_unresolved:
  "(refPath rootSchema ns \<and> refOf (last ns) = Ref ref \<and> startsWith ref ''#/''
      \<and> 0 < i \<and> i \<le> length (splitOn CHR ''/'' (drop 2 ref))
      \<and> walk rootSchema (take i (splitOn CHR ''/'' (drop 2 ref))) = Some v \<and> \<not> truthy v
      \<longrightarrow> resolveIfRef pf (hd ns) rootSchema = Some (Inl (UnresolvedPointer (drop 2 ref))))
   \<and> (resolvePointer pf pointer rootSchema = Inr m
      \<and> 0 < j \<and> j \<le> length (splitOn CHR ''/'' pointer)
      \<longrightarrow> (\<exists>w. reach pf (Data rootSchema) (take j (splitOn CHR ''/'' pointer)) = Inr (Some w)
              \<and> truthyVal w
              \<and> (\<forall>u. walk rootSchema (take j (splitOn CHR ''/'' pointer)) = Some u
                    \<longrightarrow> w = Data u \<and> truthy u)))"
proof -
  have a: "followRefs pf (Data n) rootSchema = Some (Inl (UnresolvedPointer (drop 2 ref)))"
    if "refOf n = Ref ref" "startsWith ref ''#/''" "0 < i"
      "i \<le> length (splitOn CHR ''/'' (drop 2 ref))"
      "walk rootSchema (take i (splitOn CHR ''/'' (drop 2 ref))) = Some v" "\<not> truthy v" for n
  proof -
    from that(3,5) have "rootSchema \<noteq> JNull"
      using splitOn_nonempty [of "CHR ''/''" "drop 2 ref"]
      by (cases i; cases "splitOn CHR ''/'' (drop 2 ref)") auto
    with that(3-6)
    have "resolvePointer pf (drop 2 ref) rootSchema = Inl (UnresolvedPointer (drop 2 ref))"
      by (simp add: resolvePointer_def resolveParts_falsy)
    with that(1,2) show ?thesis
      by (subst followRefs.simps) simp
  qed
  have b: "\<exists>w. reach pf (Data rootSchema) (take j (splitOn CHR ''/'' pointer)) = Inr (Some w)
              \<and> truthyVal w
              \<and> (\<forall>u. walk rootSchema (take j (splitOn CHR ''/'' pointer)) = Some u
                    \<longrightarrow> w = Data u \<and> truthy u)"
    if "resolvePointer pf pointer rootSchema = Inr m" "0 < j" "j \<le> length (splitOn CHR ''/'' pointer)"
  proof -
    from that resolveParts_Inr [of pf pointer "Data rootSchema" "splitOn CHR ''/'' pointer" m j]
    obtain w where w: "reach pf (Data rootSchema) (take j (splitOn CHR ''/'' pointer)) = Inr (Some w)"
        "truthyVal w"
      by (auto simp: resolvePointer_def split: if_splits)
    have "w = Data u \<and> truthy u"
      if "walk rootSchema (take j (splitOn CHR ''/'' pointer)) = Some u" for u
      using walk_reach [OF that, of pf] w by auto
    with w show ?thesis by blast
  qed
  from a b show ?thesis
    using follow_last_error [of rootSchema ns pf] by blast
qed

text \<open>
  The theorem at a pointer to a \<open>null\<close> member; pointers to \<open>0\<close>, \<open>false\<close> and
  the empty string fail alike.
\<close>

theorem falsy_value_unresolved_witness:
  "resolveIfRef constructorPlatform (JObj [(''$ref'', JStr ''#/definitions/a'')]) falsyTargets
     = Some (Inl (UnresolvedPointer ''definitions/a''))
   \<and> walk falsyTargets [''definitions'', ''a''] = Some JNull
   \<and> resolveIfRef constructorPlatform (JObj [(''$ref'', JStr ''#/definitions/b'')]) falsyTargets
     = Some (Inl (UnresolvedPointer ''definitions/b''))
   \<and> resolveIfRef constructorPlatform (JObj [(''$ref'', JStr ''#/definitions/c'')]) falsyTargets
     = Some (Inl (UnresolvedPointer ''definitions/c''))
   \<and> resolveIfRef constructorPlatform (JObj [(''$ref'', JStr ''#/definitions/d'')]) falsyTargets
     = Some (Inl (UnresolvedPointer ''definitions/d''))"
proof -
  let ?n = "JObj [(''$ref'', JStr ''#/definitions/a'')]"
  have h: "refPath falsyTargets [?n]" "refOf (last [?n]) = Ref ''#/definitions/a''"
    "startsWith ''#/definitions/a'' ''#/''" "(0::nat) < 2"
    "2 \<le> length (splitOn CHR ''/'' (drop 2 ''#/definitions/a''))"
    "walk falsyTargets (take 2 (splitOn CHR ''/'' (drop 2 ''#/definitions/a''))) = Some JNull"
    "\<not> truthy JNull"
    by code_simp+
  from falsy_value_unresolved [where rootSchema = falsyTargets and ns = "[?n]"
      and ref = "''#/definitions/a''" and i = 2 and v = JNull and pf = constructorPlatform] h
  have "resolveIfRef constructorPlatform (hd [?n]) falsyTargets
      = Some (Inl (UnresolvedPointer (drop 2 ''#/definitions/a'')))"
    by blast
  moreover have "walk falsyTargets [''definitions'', ''a''] = Some JNull"
    by code_simp
  moreover have "resolveIfRef constructorPlatform (JObj [(''$ref'', JStr ''#/definitions/b'')]) falsyTargets
     = Some (Inl (UnresolvedPointer ''definitions/b''))"
  proof -
    have "refOf (JObj [(''$ref'', JStr ''#/definitions/b'')]) = Ref ''#/definitions/b''"
      and "startsWith ''#/definitions/b'' ''#/''"
      and "resolvePointer constructorPlatform (drop 2 ''#/definitions/b'') falsyTargets
        = Inl (UnresolvedPointer ''definitions/b'')"
      by code_simp+
    then show ?thesis by (simp add: resolveIfRef_Ref)
  qed
  moreover have "resolveIfRef constructorPlatform (JObj [(''$ref'', JStr ''#/definitions/c'')]) falsyTargets
     = Some (Inl (UnresolvedPointer ''definitions/c''))"
  proof -
    have "refOf (JObj [(''$ref'', JStr ''#/definitions/c'')]) = Ref ''#/definitions/c''"
      and "startsWith ''#/definitions/c'' ''#/''"
      and "resolvePointer constructorPlatform (drop 2 ''#/definitions/c'') falsyTargets
        = Inl (UnresolvedPointer ''definitions/c'')"
      by code_simp+
    then show ?thesis by (simp add: resolveIfRef_Ref)
  qed
  moreover have "resolveIfRef constructorPlatform (JObj [(''$ref'', JStr ''#/definitions/d'')]) falsyTargets
     = Some (Inl (UnresolvedPointer ''definitions/d''))"
  proof -
    have "refOf (JObj [(''$ref'', JStr ''#/definitions/d'')]) = Ref ''#/definitions/d''"
      and "startsWith ''#/definitions/d'' ''#/''"
      and "resolvePointer constructorPlatform (drop 2 ''#/definitions/d'') falsyTargets
        = Inl (UnresolvedPointer ''definitions/d'')"
      by code_simp+
    then show ?thesis by (simp add: resolveIfRef_Ref)
  qed
  ultimately show ?thesis by simp
qed

section \<open>Instance inferrer: table blocks of example data\<close>

text \<open>
  A block of the example workbook (the \<open>Block\<close> bean): \<open>@entity\<close> is \<open>entity\<close>;
  an absent optional member is \<open>None\<close>. A row is any JSON value.
\<close>

record Block = Named +
  header :: "string list option"
  rows :: "json list option"
  items :: "json list option"
























section \<open>JSON text: \<open>JSON.stringify\<close> and \<open>JSON.parse\<close>\<close>

text \<open>
  \<open>JSON.stringify\<close>: no white space, members in the order of the object's own keys,
  strings quoted with the escapes of \<open>QuoteJSONString\<close>, and \<open>null\<close> for a number
  that is not finite.
\<close>

definition hexDigits :: string where
  "hexDigits = ''0123456789abcdef''"

definition quoteChar :: "char \<Rightarrow> string" where
  "quoteChar c =
     (if c = CHR 0x22 then [CHR 0x5C, CHR 0x22]
      else if c = CHR 0x5C then [CHR 0x5C, CHR 0x5C]
      else if c = CHR 0x08 then [CHR 0x5C, CHR ''b'']
      else if c = CHR 0x0C then [CHR 0x5C, CHR ''f'']
      else if c = CHR 0x0A then [CHR 0x5C, CHR ''n'']
      else if c = CHR 0x0D then [CHR 0x5C, CHR ''r'']
      else if c = CHR 0x09 then [CHR 0x5C, CHR ''t'']
      else if (of_char c :: nat) < 32
      then [CHR 0x5C, CHR ''u'', CHR ''0'', CHR ''0'',
            hexDigits ! ((of_char c :: nat) div 16), hexDigits ! ((of_char c :: nat) mod 16)]
      else [c])"

definition quote :: "string \<Rightarrow> string" where
  "quote s = CHR 0x22 # concat (map quoteChar s) @ [CHR 0x22]"

fun numberText :: "number \<Rightarrow> string" where
  "numberText (Finite n) = showInt n"
| "numberText NaN = ''null''"
| "numberText PosInfinity = ''null''"
| "numberText NegInfinity = ''null''"

fun JSON_stringify :: "json \<Rightarrow> string"
  and stringifyElements :: "json list \<Rightarrow> string"
  and stringifyMembers :: "(string \<times> json) list \<Rightarrow> string" where
  "JSON_stringify JNull = ''null''"
| "JSON_stringify (JBool b) = (if b then ''true'' else ''false'')"
| "JSON_stringify (JNum x) = numberText x"
| "JSON_stringify (JStr s) = quote s"
| "JSON_stringify (JArr xs) = ''['' @ stringifyElements xs @ '']''"
| "JSON_stringify (JObj kvs) = ''{'' @ stringifyMembers kvs @ ''}''"
| "stringifyElements [] = []"
| "stringifyElements [x] = JSON_stringify x"
| "stringifyElements (x # y # ys) = JSON_stringify x @ '','' @ stringifyElements (y # ys)"
| "stringifyMembers [] = []"
| "stringifyMembers [(k, v)] = quote k @ '':'' @ JSON_stringify v"
| "stringifyMembers ((k, v) # m # ms) =
     quote k @ '':'' @ JSON_stringify v @ '','' @ stringifyMembers (m # ms)"


text \<open>
  \<open>JSON.parse\<close> on the texts \<open>JSON.stringify\<close> writes: the grammar without white space
  between tokens, integers for numbers, and escapes of code units below 256. \<open>None\<close> is a
  \<open>SyntaxError\<close>, or a text outside this model. A repeated key keeps its first place and
  takes the last value. The recursion is bounded by the length of the text.
\<close>

definition hexVal :: "char \<Rightarrow> nat option" where
  "hexVal c = (let n = (of_char c :: nat) in
     if 48 \<le> n \<and> n \<le> 57 then Some (n - 48)
     else if 97 \<le> n \<and> n \<le> 102 then Some (n - 87)
     else if 65 \<le> n \<and> n \<le> 70 then Some (n - 55)
     else None)"

definition unescape :: "char \<Rightarrow> char option" where
  "unescape e =
     (if e = CHR 0x22 then Some (CHR 0x22)
      else if e = CHR 0x5C then Some (CHR 0x5C)
      else if e = CHR ''/'' then Some (CHR ''/'')
      else if e = CHR ''b'' then Some (CHR 0x08)
      else if e = CHR ''f'' then Some (CHR 0x0C)
      else if e = CHR ''n'' then Some (CHR 0x0A)
      else if e = CHR ''r'' then Some (CHR 0x0D)
      else if e = CHR ''t'' then Some (CHR 0x09)
      else None)"

definition consChar :: "char \<Rightarrow> (string \<times> string) option \<Rightarrow> (string \<times> string) option" where
  "consChar c res = (case res of None \<Rightarrow> None | Some (s, r) \<Rightarrow> Some (c # s, r))"

fun parseChars :: "string \<Rightarrow> (string \<times> string) option" where
  "parseChars [] = None"
| "parseChars (c # cs) =
     (if c = CHR 0x22 then Some ([], cs)
      else if c = CHR 0x5C then
        (case cs of
           [] \<Rightarrow> None
         | e # r \<Rightarrow>
             (if e = CHR ''u'' then
                (case r of
                   h1 # h2 # h3 # h4 # r' \<Rightarrow>
                     (case (hexVal h1, hexVal h2, hexVal h3, hexVal h4) of
                        (Some a, Some b, Some x, Some y) \<Rightarrow>
                          (if a = 0 \<and> b = 0 then consChar (char_of (16 * x + y)) (parseChars r')
                           else None)
                      | _ \<Rightarrow> None)
                 | _ \<Rightarrow> None)
              else (case unescape e of
                      None \<Rightarrow> None
                    | Some x \<Rightarrow> consChar x (parseChars r))))
      else if (of_char c :: nat) < 32 then None
      else consChar c (parseChars cs))"


definition parseNumber :: "string \<Rightarrow> (json \<times> string) option" where
  "parseNumber s =
     (let neg = (s \<noteq> [] \<and> hd s = CHR ''-'');
          body = (if neg then tl s else s);
          ds = takeWhile isDigit body;
          r = dropWhile isDigit body
      in if ds = [] then None
         else if 1 < length ds \<and> hd ds = CHR ''0'' then None
         else Some (JNum (Finite (if neg then - int (digitsVal ds) else int (digitsVal ds))), r))"

definition addMember :: "string \<Rightarrow> json \<Rightarrow> (string \<times> json) list \<Rightarrow> (string \<times> json) list" where
  "addMember k v kvs =
     (k, (case map_of kvs k of None \<Rightarrow> v | Some v' \<Rightarrow> v')) # AList.delete k kvs"

fun parseValue :: "nat \<Rightarrow> string \<Rightarrow> (json \<times> string) option"
  and parseElements :: "nat \<Rightarrow> string \<Rightarrow> (json list \<times> string) option"
  and parseMembers :: "nat \<Rightarrow> string \<Rightarrow> ((string \<times> json) list \<times> string) option" where
  "parseValue 0 s = None"
| "parseValue (Suc fuel) s =
     (if startsWith s ''null'' then Some (JNull, drop 4 s)
      else if startsWith s ''true'' then Some (JBool True, drop 4 s)
      else if startsWith s ''false'' then Some (JBool False, drop 5 s)
      else (case s of
              [] \<Rightarrow> None
            | c # r \<Rightarrow>
                (if c = CHR 0x22 then
                   (case parseChars r of None \<Rightarrow> None | Some (str, r') \<Rightarrow> Some (JStr str, r'))
                 else if c = CHR ''['' then
                   (if r \<noteq> [] \<and> hd r = CHR '']'' then Some (JArr [], tl r)
                    else (case parseElements fuel r of
                            None \<Rightarrow> None
                          | Some (xs, r') \<Rightarrow> Some (JArr xs, r')))
                 else if c = CHR ''{'' then
                   (if r \<noteq> [] \<and> hd r = CHR ''}'' then Some (JObj [], tl r)
                    else (case parseMembers fuel r of
                            None \<Rightarrow> None
                          | Some (kvs, r') \<Rightarrow> Some (JObj kvs, r')))
                 else parseNumber s)))"
| "parseElements 0 s = None"
| "parseElements (Suc fuel) s =
     (case parseValue fuel s of
        None \<Rightarrow> None
      | Some (v, r) \<Rightarrow>
          (case r of
             [] \<Rightarrow> None
           | c # r' \<Rightarrow>
               (if c = CHR '']'' then Some ([v], r')
                else if c = CHR '','' then
                  (case parseElements fuel r' of
                     None \<Rightarrow> None
                   | Some (vs, r'') \<Rightarrow> Some (v # vs, r''))
                else None)))"
| "parseMembers 0 s = None"
| "parseMembers (Suc fuel) s =
     (case s of
        [] \<Rightarrow> None
      | q # s' \<Rightarrow>
          (if q \<noteq> CHR 0x22 then None
           else (case parseChars s' of
                   None \<Rightarrow> None
                 | Some (k, r0) \<Rightarrow>
                     (case r0 of
                        [] \<Rightarrow> None
                      | colon # r1 \<Rightarrow>
                          (if colon \<noteq> CHR '':'' then None
                           else (case parseValue fuel r1 of
                                   None \<Rightarrow> None
                                 | Some (v, r) \<Rightarrow>
                                     (case r of
                                        [] \<Rightarrow> None
                                      | c # r' \<Rightarrow>
                                          (if c = CHR ''}'' then Some ([(k, v)], r')
                                           else if c = CHR '','' then
                                             (case parseMembers fuel r' of
                                                None \<Rightarrow> None
                                              | Some (kvs, r'') \<Rightarrow> Some (addMember k v kvs, r''))
                                           else None))))))))"

definition JSON_parse :: "string \<Rightarrow> json option" where
  "JSON_parse s =
     (case parseValue (length s) s of
        Some (v, []) \<Rightarrow> Some v
      | _ \<Rightarrow> None)"

subsection \<open>Parsing a written text gives the value back\<close>











definition delimited :: "string \<Rightarrow> bool" where
  "delimited r = (r = [] \<or> \<not> isDigit (hd r))"










text \<open>A value as JavaScript holds it: the keys of every object are distinct.\<close>

fun wfJson :: "json \<Rightarrow> bool" where
  "wfJson (JArr xs) = list_all wfJson xs"
| "wfJson (JObj kvs) = (distinct (map fst kvs) \<and> list_all (\<lambda>kv. wfJson (snd kv)) kvs)"
| "wfJson v = True"










lemma delimited_simps [simp]:
  "delimited (CHR '','' # r)" "delimited (CHR '']'' # r)" "delimited (CHR ''}'' # r)" "delimited []"
  by (simp_all add: delimited_def isDigit_def)

















declare parseValue.simps [simp del] parseElements.simps [simp del] parseMembers.simps [simp del]





section \<open>Canonical fingerprint\<close>

text \<open>
  \<open>toTreeMapRecursive\<close>: arrays keep their order; an object is rebuilt by the loop
  over its keys in the order of \<open>Array.prototype.sort\<close> (code units, a prefix first),
  which assigns to each key the converted value: here the loop over the members in
  the order of their keys. The new object has its own keys in the order assignment
  gives them, and no key \<open>__proto__\<close>.
\<close>

fun toTreeMapRecursive :: "json \<Rightarrow> json" where
  "toTreeMapRecursive (JArr xs) = JArr (map toTreeMapRecursive xs)"
| "toTreeMapRecursive (JObj kvs) =
     JObj (foldl (\<lambda>result kv. assign (fst kv) (toTreeMapRecursive (snd kv)) result) []
             (sort_key fst kvs))"
| "toTreeMapRecursive v = v"

definition toCanonicalJson :: "json \<Rightarrow> string" where
  "toCanonicalJson obj = JSON_stringify (toTreeMapRecursive obj)"

definition fromCanonicalJson :: "string \<Rightarrow> json option" where
  "fromCanonicalJson jsonStr = JSON_parse jsonStr"

text \<open>
  What a value holds when the order of the members of its mappings is forgotten, at
  every depth: the members of a mapping are a finite set, an array stays a list.
\<close>

datatype content =
    CNull
  | CBool bool
  | CNum number
  | CStr string
  | CArr "content list"
  | CObj "(string \<times> content) fset"

fun contentOf :: "json \<Rightarrow> content" where
  "contentOf JNull = CNull"
| "contentOf (JBool b) = CBool b"
| "contentOf (JNum n) = CNum n"
| "contentOf (JStr s) = CStr s"
| "contentOf (JArr xs) = CArr (map contentOf xs)"
| "contentOf (JObj kvs) = CObj (fset_of_list (map (\<lambda>kv. (fst kv, contentOf (snd kv))) kvs))"

text \<open>A value in which no mapping has the key \<open>__proto__\<close>.\<close>

fun noProtoKey :: "json \<Rightarrow> bool" where
  "noProtoKey (JArr xs) = list_all noProtoKey xs"
| "noProtoKey (JObj kvs) = list_all (\<lambda>kv. fst kv \<noteq> ''__proto__'' \<and> noProtoKey (snd kv)) kvs"
| "noProtoKey v = True"

text \<open>The members of the object that successive assignments build from a list of members.\<close>

definition objectOf :: "(string \<times> json) list \<Rightarrow> (string \<times> json) list" where
  "objectOf ms = foldl (\<lambda>result kv. assign (fst kv) (snd kv) result) [] ms"

lemma sorted_keys_unique:
  assumes "sorted (map fst xs)" "distinct (map fst xs)"
    and "sorted (map fst ys)" "distinct (map fst ys)"
    and "set xs = set ys"
  shows "xs = ys"
proof -
  have "inj_on fst (set xs)"
    using assms(2) by (simp add: distinct_map)
  with assms(5) have "inj_on fst (set xs \<union> set ys)"
    by simp
  from map_sorted_distinct_set_unique [OF this assms] show ?thesis .
qed

lemma assign_proto: "''__proto__'' \<notin> set (map fst kvs) \<Longrightarrow> assign ''__proto__'' v kvs = kvs"
  by (simp add: assign_def)

lemma split_at_index:
  "set (takeWhile P kvs @ x # dropWhile P kvs) = insert x (set kvs)"
  "map fst (takeWhile P kvs @ x # dropWhile P kvs)
     = map fst (takeWhile P kvs) @ fst x # map fst (dropWhile P kvs)"
  "map fst (takeWhile P kvs) @ map fst (dropWhile P kvs) = map fst kvs"
proof -
  have "set (takeWhile P kvs) \<union> set (dropWhile P kvs) = set kvs"
    by (metis set_append takeWhile_dropWhile_id)
  then show "set (takeWhile P kvs @ x # dropWhile P kvs) = insert x (set kvs)"
    by auto
  show "map fst (takeWhile P kvs @ x # dropWhile P kvs)
     = map fst (takeWhile P kvs) @ fst x # map fst (dropWhile P kvs)"
    by simp
  show "map fst (takeWhile P kvs) @ map fst (dropWhile P kvs) = map fst kvs"
    by (metis map_append takeWhile_dropWhile_id)
qed

lemma assign_fresh:
  assumes "k \<noteq> ''__proto__''" "k \<notin> set (map fst kvs)"
  shows "set (assign k v kvs) = insert (k, v) (set kvs)"
    and "distinct (map fst kvs) \<Longrightarrow> distinct (map fst (assign k v kvs))"
    and "set (map fst (assign k v kvs)) = insert k (set (map fst kvs))"
proof -
  show s: "set (assign k v kvs) = insert (k, v) (set kvs)"
  proof (cases "arrayIndex k")
    case None
    with assms show ?thesis by (simp add: assign_def)
  next
    case (Some i)
    with assms have "assign k v kvs
        = takeWhile (indexBelow i) kvs @ (k, v) # dropWhile (indexBelow i) kvs"
      by (simp add: assign_def)
    then show ?thesis by (simp only: split_at_index(1))
  qed
  then show "set (map fst (assign k v kvs)) = insert k (set (map fst kvs))"
    by simp
  assume d: "distinct (map fst kvs)"
  show "distinct (map fst (assign k v kvs))"
  proof (cases "arrayIndex k")
    case None
    with assms d show ?thesis by (simp add: assign_def)
  next
    case (Some i)
    let ?P = "indexBelow i"
    from d have "distinct (map fst (takeWhile ?P kvs) @ map fst (dropWhile ?P kvs))"
      by (simp only: split_at_index(3))
    moreover from assms(2) have "k \<notin> set (map fst (takeWhile ?P kvs) @ map fst (dropWhile ?P kvs))"
      by (simp only: split_at_index(3)) simp
    ultimately have "distinct (map fst (takeWhile ?P kvs) @ k # map fst (dropWhile ?P kvs))"
      by auto
    with assms Some show ?thesis
      by (simp add: assign_def)
  qed
qed

lemma foldl_assign:
  "distinct (map fst ms) \<Longrightarrow> distinct (map fst acc)
     \<Longrightarrow> set (map fst acc) \<inter> set (map fst ms) = {}
     \<Longrightarrow> ''__proto__'' \<notin> set (map fst acc)
     \<Longrightarrow> set (foldl (\<lambda>result kv. assign (fst kv) (snd kv) result) acc ms)
           = set acc \<union> {kv \<in> set ms. fst kv \<noteq> ''__proto__''}
         \<and> distinct (map fst (foldl (\<lambda>result kv. assign (fst kv) (snd kv) result) acc ms))"
proof (induction ms arbitrary: acc)
  case Nil
  then show ?case by simp
next
  case (Cons m ms)
  let ?acc = "assign (fst m) (snd m) acc"
  from Cons.prems(1) have dm: "distinct (map fst ms)" and fm: "fst m \<notin> set (map fst ms)"
    by simp_all
  from Cons.prems(3) have fresh: "fst m \<notin> set (map fst acc)"
    and disj: "set (map fst acc) \<inter> set (map fst ms) = {}"
    by auto
  show ?case
  proof (cases "fst m = ''__proto__''")
    case True
    with Cons.prems(4) have "?acc = acc" by (simp add: assign_proto)
    with Cons.IH [OF dm Cons.prems(2) disj Cons.prems(4)] True show ?thesis by auto
  next
    case False
    from assign_fresh [OF False fresh, of "snd m"] Cons.prems(2)
    have a: "set ?acc = insert m (set acc)" "distinct (map fst ?acc)"
      "set (map fst ?acc) = insert (fst m) (set (map fst acc))"
      by simp_all
    from a(3) fm disj have "set (map fst ?acc) \<inter> set (map fst ms) = {}"
      by auto
    moreover from a(3) False Cons.prems(4) have "''__proto__'' \<notin> set (map fst ?acc)"
      by auto
    ultimately show ?thesis
      using Cons.IH [OF dm a(2)] a(1) False by auto
  qed
qed

lemma objectOf_set:
  "distinct (map fst ms) \<Longrightarrow> set (objectOf ms) = {kv \<in> set ms. fst kv \<noteq> ''__proto__''}"
  using foldl_assign [of ms "[]"] by (simp add: objectOf_def)


lemma toTree_JObj:
  "toTreeMapRecursive (JObj kvs)
     = JObj (objectOf (map (\<lambda>kv. (fst kv, toTreeMapRecursive (snd kv))) (sort_key fst kvs)))"
  by (simp add: objectOf_def foldl_map)

lemma keys_converted:
  "map fst (map (\<lambda>kv. (fst kv, f (snd kv))) xs) = map fst xs"
  by (induction xs) simp_all

lemma converted_sorted:
  "sorted (map fst (map (\<lambda>kv. (fst kv, f (snd kv))) (sort_key fst kvs)))"
  by (simp only: keys_converted sorted_sort_key)

lemma converted_distinct:
  "distinct (map fst kvs) \<Longrightarrow>
     distinct (map fst (map (\<lambda>kv. (fst kv, f (snd kv))) (sort_key fst kvs)))"
  by (simp only: keys_converted) (simp add: distinct_map)

declare toTreeMapRecursive.simps(2) [simp del]



lemma contentOf_toTree:
  "wfJson v \<Longrightarrow> noProtoKey v \<Longrightarrow> contentOf (toTreeMapRecursive v) = contentOf v"
proof (induction v rule: toTreeMapRecursive.induct)
  case (1 xs)
  then show ?case by (auto simp: list_all_iff)
next
  case (2 kvs)
  let ?g = "\<lambda>kv. (fst kv, toTreeMapRecursive (snd kv))"
  let ?c = "\<lambda>kv. (fst kv, contentOf (snd kv))"
  let ?ms = "map ?g (sort_key fst kvs)"
  from "2.prems" have d: "distinct (map fst kvs)" and w: "\<forall>kv \<in> set kvs. wfJson (snd kv)"
    and n: "\<forall>kv \<in> set kvs. fst kv \<noteq> ''__proto__'' \<and> noProtoKey (snd kv)"
    by (auto simp: list_all_iff)
  have dm: "distinct (map fst ?ms)"
    using d by (rule converted_distinct)
  have "set (objectOf ?ms) = {p \<in> set ?ms. fst p \<noteq> ''__proto__''}"
    using dm by (rule objectOf_set)
  also have "\<dots> = set ?ms"
    using n by auto
  also have "\<dots> = ?g ` set kvs"
    by simp
  finally have "?c ` set (objectOf ?ms) = (\<lambda>kv. (fst kv, contentOf (toTreeMapRecursive (snd kv)))) ` set kvs"
    by (simp add: image_image)
  also have "\<dots> = ?c ` set kvs"
    using "2.IH" w n by (intro image_cong) auto
  finally have "fset_of_list (map ?c (objectOf ?ms)) = fset_of_list (map ?c kvs)"
    by (simp add: fset_eq_iff fset_of_list.rep_eq)
  then show ?case by (simp add: toTree_JObj)
qed simp_all

lemma toTree_content:
  "wfJson v \<Longrightarrow> wfJson w \<Longrightarrow> contentOf v = contentOf w
     \<Longrightarrow> toTreeMapRecursive v = toTreeMapRecursive w"
proof (induction v arbitrary: w rule: toTreeMapRecursive.induct)
  case (1 xs)
  from "1.prems"(3) obtain ys where w: "w = JArr ys" "map contentOf xs = map contentOf ys"
    by (cases w) auto
  from w(2) have len: "length xs = length ys"
    by (rule map_eq_imp_length_eq)
  have "toTreeMapRecursive (xs ! i) = toTreeMapRecursive (ys ! i)" if "i < length xs" for i
  proof -
    from that have "xs ! i \<in> set xs" by simp
    moreover from "1.prems"(1) that have "wfJson (xs ! i)" by (simp add: list_all_length)
    moreover from "1.prems"(2) w(1) that len have "wfJson (ys ! i)" by (simp add: list_all_length)
    moreover have "contentOf (xs ! i) = contentOf (ys ! i)"
    proof -
      have "contentOf (xs ! i) = map contentOf xs ! i"
        using that by simp
      also have "\<dots> = map contentOf ys ! i"
        by (simp only: w(2))
      also have "\<dots> = contentOf (ys ! i)"
        using that len by simp
      finally show ?thesis .
    qed
    ultimately show ?thesis by (rule "1.IH")
  qed
  with len have "map toTreeMapRecursive xs = map toTreeMapRecursive ys"
    by (simp add: list_eq_iff_nth_eq)
  with w(1) show ?case by simp
next
  case (2 kvs)
  from "2.prems"(3) obtain kvs' where w: "w = JObj kvs'"
    "fset_of_list (map (\<lambda>kv. (fst kv, contentOf (snd kv))) kvs)
      = fset_of_list (map (\<lambda>kv. (fst kv, contentOf (snd kv))) kvs')"
    by (cases w) auto
  let ?f = "\<lambda>kv. (fst kv, contentOf (snd kv))"
  let ?g = "\<lambda>kv. (fst kv, toTreeMapRecursive (snd kv))"
  from w(2) have img: "?f ` set kvs = ?f ` set kvs'"
    by (simp add: fset_eq_iff fset_of_list.rep_eq set_eq_iff)
  from "2.prems"(1) have d: "distinct (map fst kvs)" and wf: "\<forall>kv \<in> set kvs. wfJson (snd kv)"
    by (auto simp: list_all_iff)
  from "2.prems"(2) w(1) have d': "distinct (map fst kvs')"
    and wf': "\<forall>kv \<in> set kvs'. wfJson (snd kv)"
    by (auto simp: list_all_iff)
  have match: "?g a = ?g b" if "a \<in> set kvs" "b \<in> set kvs'" "?f a = ?f b" for a b
  proof -
    from that(3) have "fst a = fst b" "contentOf (snd a) = contentOf (snd b)" by simp_all
    moreover from "2.IH" [of a "snd b"] that(1,2) wf wf' this(2)
    have "toTreeMapRecursive (snd a) = toTreeMapRecursive (snd b)" by simp
    ultimately show ?thesis by simp
  qed
  have "?g ` set kvs = ?g ` set kvs'"
  proof (intro set_eqI iffI)
    fix p assume "p \<in> ?g ` set kvs"
    then obtain a where a: "a \<in> set kvs" "p = ?g a" by blast
    then have "?f a \<in> ?f ` set kvs'" using img by blast
    then obtain b where b: "b \<in> set kvs'" "?f a = ?f b" by blast
    from match [OF a(1) b] a(2) have "p = ?g b" by simp
    with b(1) show "p \<in> ?g ` set kvs'" by (rule rev_image_eqI)
  next
    fix p assume "p \<in> ?g ` set kvs'"
    then obtain b where b: "b \<in> set kvs'" "p = ?g b" by blast
    then have "?f b \<in> ?f ` set kvs" using img by blast
    then obtain a where a: "a \<in> set kvs" "?f b = ?f a" by blast
    from match [OF a(1) b(1) a(2) [symmetric]] b(2) have "p = ?g a" by simp
    with a(1) show "p \<in> ?g ` set kvs" by (rule rev_image_eqI)
  qed
  then have s: "set (map ?g (sort_key fst kvs)) = set (map ?g (sort_key fst kvs'))"
    by simp
  have "map ?g (sort_key fst kvs) = map ?g (sort_key fst kvs')"
  proof (rule sorted_keys_unique [OF _ _ _ _ s])
    show "sorted (map fst (map ?g (sort_key fst kvs)))" by (rule converted_sorted)
    show "sorted (map fst (map ?g (sort_key fst kvs')))" by (rule converted_sorted)
    show "distinct (map fst (map ?g (sort_key fst kvs)))"
      using d by (rule converted_distinct)
    show "distinct (map fst (map ?g (sort_key fst kvs')))"
      using d' by (rule converted_distinct)
  qed
  with w(1) show ?case by (simp add: toTree_JObj)
qed (case_tac [!] w, auto)








text \<open>
  Keys that are array indices come first in the rebuilt object, in numeric order, and
  so in the fingerprint.
\<close>

lemma index_keys_first:
  "toTreeMapRecursive (JObj [(''a'', JNull), (''10'', JNull), (''9'', JNull)])
     = JObj [(''9'', JNull), (''10'', JNull), (''a'', JNull)]"
  by code_simp

section \<open>Deduplicator\<close>

text \<open>\<open>v || {}\<close>\<close>

definition orEmpty :: "json option \<Rightarrow> json" where
  "orEmpty v = (case v of None \<Rightarrow> JObj [] | Some j \<Rightarrow> (if truthy j then j else JObj []))"

text \<open>
  A block location. The source keeps a reference to the alternation array of the
  sheet; the model keeps the position of that sheet in the alternation of sheets, the
  arrays of distinct sheets being distinct objects in every schema \<open>buildJsonSchema\<close>
  returns.
\<close>

record block_location =
  sheetPos :: nat
  index :: nat
  blockSchema :: json

fun locationsOf :: "nat \<Rightarrow> nat \<Rightarrow> json list \<Rightarrow> block_location list" where
  "locationsOf s i [] = []"
| "locationsOf s i (b # bs) =
     \<lparr> sheetPos = s, index = i, blockSchema = b \<rparr> # locationsOf s (Suc i) bs"

text \<open>
  \<open>findAllBlockSchemas\<close>: the alternation of one sheet schema (\<open>None\<close> where the loop
  goes on to the next sheet), the loop over the sheets, and the guards before it.
  Reading a member of \<open>null\<close> is a \<open>TypeError\<close>.
\<close>

definition sheetBlockList :: "json \<Rightarrow> error + json list option" where
  "sheetBlockList sheetSchema =
     (if sheetSchema = JNull then Inl TypeError
      else (case getProp sheetSchema ''properties'' of
              None \<Rightarrow> Inr None
            | Some sheetProps \<Rightarrow>
                (if \<not> truthy sheetProps then Inr None
                 else (case getProp sheetProps ''blocks'' of
                         None \<Rightarrow> Inr None
                       | Some blocksNode \<Rightarrow>
                           (if \<not> truthy blocksNode then Inr None
                            else (case getProp (orEmpty (getProp blocksNode ''items'')) ''oneOf'' of
                                    Some (JArr blocksOneOfList) \<Rightarrow> Inr (Some blocksOneOfList)
                                  | _ \<Rightarrow> Inr None))))))"

fun findInSheets :: "nat \<Rightarrow> json list \<Rightarrow> error + block_location list" where
  "findInSheets s [] = Inr []"
| "findInSheets s (sheetSchema # rest) =
     (case sheetBlockList sheetSchema of
        Inl e \<Rightarrow> Inl e
      | Inr found \<Rightarrow>
          (case findInSheets (Suc s) rest of
             Inl e \<Rightarrow> Inl e
           | Inr locs \<Rightarrow>
               Inr ((case found of None \<Rightarrow> [] | Some bl \<Rightarrow> locationsOf s 0 bl) @ locs)))"

definition findAllBlockSchemas :: "json \<Rightarrow> error + block_location list" where
  "findAllBlockSchemas rootSchema =
     (if rootSchema = JNull then Inl TypeError
      else (case getProp rootSchema ''properties'' of
              None \<Rightarrow> Inr []
            | Some props \<Rightarrow>
                (if \<not> truthy props then Inr []
                 else (case getProp props ''sheets'' of
                         None \<Rightarrow> Inr []
                       | Some sheetsNode \<Rightarrow>
                           (if \<not> truthy sheetsNode then Inr []
                            else (case getProp (orEmpty (getProp sheetsNode ''items'')) ''oneOf'' of
                                    Some (JArr oneOfSheets) \<Rightarrow> findInSheets 0 oneOfSheets
                                  | _ \<Rightarrow> Inr []))))))"

text \<open>
  Step 2 of \<open>deduplicateBlocks\<close>: \<open>usageCount\<close>, a \<open>Map\<close> in insertion order.
\<close>

definition countUsage :: "block_location list \<Rightarrow> (string \<times> nat) list" where
  "countUsage locs =
     foldl (\<lambda>usageCount loc.
              AList.update (toCanonicalJson (blockSchema loc))
                ((case map_of usageCount (toCanonicalJson (blockSchema loc)) of
                    None \<Rightarrow> 0
                  | Some c \<Rightarrow> c) + 1)
                usageCount)
       [] locs"

text \<open>
  \<open>ToString\<close>, which a template literal and a computed member name apply to the
  block name.
\<close>

fun jsToString :: "json \<Rightarrow> string" where
  "jsToString JNull = ''null''"
| "jsToString (JBool b) = (if b then ''true'' else ''false'')"
| "jsToString (JNum (Finite n)) = showInt n"
| "jsToString (JNum NaN) = ''NaN''"
| "jsToString (JNum PosInfinity) = ''Infinity''"
| "jsToString (JNum NegInfinity) = ''-Infinity''"
| "jsToString (JStr s) = s"
| "jsToString (JArr xs) = joinWith '','' (map (\<lambda>x. if x = JNull then [] else jsToString x) xs)"
| "jsToString (JObj kvs) = ''[object Object]''"

text \<open>Step 3: \<open>blockNameEnum[0] || "Block"\<close> of a parsed fingerprint, as a member name.\<close>

definition blockNameOf :: "json \<Rightarrow> error + string" where
  "blockNameOf blockMap =
     (if blockMap = JNull then Inl TypeError
      else (let props = orEmpty (getProp blockMap ''properties'');
                nameProp = orEmpty (getProp props ''name'');
                blockNameEnum = (case getProp nameProp ''enum'' of
                                   Some (JArr l) \<Rightarrow> l
                                 | _ \<Rightarrow> [])
            in Inr (case blockNameEnum of
                      [] \<Rightarrow> ''Block''
                    | x # _ \<Rightarrow> (if truthy x then jsToString x else ''Block''))))"

fun nameRepeated :: "(string \<times> nat) list \<Rightarrow> (string \<times> string) list \<Rightarrow> error + (string \<times> string) list" where
  "nameRepeated [] repeatedCanonToDefName = Inr repeatedCanonToDefName"
| "nameRepeated ((canon, count) # rest) repeatedCanonToDefName =
     (if count > 1 then
        (case fromCanonicalJson canon of
           None \<Rightarrow> Inl SyntaxError
         | Some blockMap \<Rightarrow>
             (case blockNameOf blockMap of
                Inl e \<Rightarrow> Inl e
              | Inr blockName \<Rightarrow>
                  nameRepeated rest (AList.update canon blockName repeatedCanonToDefName)))
      else nameRepeated rest repeatedCanonToDefName)"

text \<open>Step 4: \<open>definitions[defName] = blockMap\<close>; a later entry of the same name overwrites.\<close>

fun buildDefinitions :: "(string \<times> string) list \<Rightarrow> (string \<times> json) list \<Rightarrow> error + (string \<times> json) list" where
  "buildDefinitions [] definitions = Inr definitions"
| "buildDefinitions ((canon, defName) # rest) definitions =
     (case fromCanonicalJson canon of
        None \<Rightarrow> Inl SyntaxError
      | Some blockMap \<Rightarrow> buildDefinitions rest (assign defName blockMap definitions))"

text \<open>
  Step 5: \<open>loc.blocksOneOf[loc.index] = { $ref: ... }\<close>, an update in place of the slot
  at the location.
\<close>

fun updMember :: "string \<Rightarrow> (json \<Rightarrow> json) \<Rightarrow> json \<Rightarrow> json" where
  "updMember k f (JObj kvs) = JObj (map (\<lambda>kv. if fst kv = k then (k, f (snd kv)) else kv) kvs)"
| "updMember k f v = v"

fun updElem :: "nat \<Rightarrow> (json \<Rightarrow> json) \<Rightarrow> json \<Rightarrow> json" where
  "updElem i f (JArr xs) = JArr (if i < length xs then xs[i := f (xs ! i)] else xs)"
| "updElem i f v = v"

definition replaceSlot :: "json \<Rightarrow> nat \<Rightarrow> nat \<Rightarrow> json \<Rightarrow> json" where
  "replaceSlot rootSchema s i v =
     updMember ''properties'' (updMember ''sheets'' (updMember ''items'' (updMember ''oneOf''
       (updElem s (updMember ''properties'' (updMember ''blocks'' (updMember ''items''
          (updMember ''oneOf'' (updElem i (\<lambda>old. v))))))))))
       rootSchema"

definition refTo :: "string \<Rightarrow> json" where
  "refTo defName = JObj [(''$ref'', JStr (''#/definitions/'' @ defName))]"

definition replaceRepeated :: "(string \<times> string) list \<Rightarrow> block_location list \<Rightarrow> json \<Rightarrow> json" where
  "replaceRepeated repeatedCanonToDefName locs rootSchema =
     foldl (\<lambda>root loc.
              (case map_of repeatedCanonToDefName (toCanonicalJson (blockSchema loc)) of
                 None \<Rightarrow> root
               | Some defName \<Rightarrow> replaceSlot root (sheetPos loc) (index loc) (refTo defName)))
       rootSchema locs"

definition deduplicateBlocks :: "json \<Rightarrow> error + json \<times> (string \<times> json) list" where
  "deduplicateBlocks rootSchema =
     (case findAllBlockSchemas rootSchema of
        Inl e \<Rightarrow> Inl e
      | Inr blockLocations \<Rightarrow>
          (case nameRepeated (countUsage blockLocations) [] of
             Inl e \<Rightarrow> Inl e
           | Inr repeatedCanonToDefName \<Rightarrow>
               (case buildDefinitions repeatedCanonToDefName [] of
                  Inl e \<Rightarrow> Inl e
                | Inr definitions \<Rightarrow>
                    Inr (replaceRepeated repeatedCanonToDefName blockLocations rootSchema,
                         definitions))))"

text \<open>\<open>generate\<close>, from the sheet grids \<open>XLSX\<close> reads: \<open>schema.definitions = definitions\<close>
  when there are definitions.\<close>

definition setMember :: "string \<Rightarrow> json \<Rightarrow> json \<Rightarrow> json" where
  "setMember k v obj = (case obj of JObj kvs \<Rightarrow> JObj (assign k v kvs) | _ \<Rightarrow> obj)"

definition generateFromModel :: "num_fns \<Rightarrow> WorkbookModel \<Rightarrow> error + json" where
  "generateFromModel js workbookModel =
     (case deduplicateBlocks (buildJsonSchema js workbookModel) of
        Inl e \<Rightarrow> Inl e
      | Inr (schema, definitions) \<Rightarrow>
          Inr (if length definitions > 0 then setMember ''definitions'' (JObj definitions) schema
               else schema))"

definition parseExcelToModel :: "string \<Rightarrow> (string \<times> cell list list) list \<Rightarrow> WorkbookModel" where
  "parseExcelToModel fileName wbSheets =
     \<lparr> name = fileName, entity = ''workbook'',
       sheets = map (\<lambda>sheet. \<lparr> name = fst sheet, entity = ''sheet'',
                                 blocks = parseBlocksInSheet (snd sheet) \<rparr>) wbSheets \<rparr>"

definition generate :: "num_fns \<Rightarrow> string \<Rightarrow> (string \<times> cell list list) list \<Rightarrow> error + json" where
  "generate js fileName wbSheets = generateFromModel js (parseExcelToModel fileName wbSheets)"

text \<open>The path of slot \<open>i\<close> of the block alternation of sheet \<open>s\<close>.\<close>

definition slotPath :: "nat \<Rightarrow> nat \<Rightarrow> string list" where
  "slotPath s i =
     [''properties'', ''sheets'', ''items'', ''oneOf'', showNat s,
      ''properties'', ''blocks'', ''items'', ''oneOf'', showNat i]"

text \<open>
  A workbook of four sheets, each with one block \<open>address_list\<close> of one field: the
  field \<open>street\<close> of type \<open>string\<close> in the first two sheets, the field \<open>zip\<close> of
  type \<open>number\<close> in the last two. Its schema before deduplication, and the two block
  schemas in it.
\<close>

definition addressRows :: "string \<Rightarrow> string \<Rightarrow> cell list list" where
  "addressRows fieldNm fieldTy =
     [[Text ''address_list''],
      [Text ''name'', Text ''null_allowed'', Text ''type''],
      [Text fieldNm, Text ''No'', Text fieldTy]]"

definition clashingSheets :: "(string \<times> cell list list) list" where
  "clashingSheets =
     [(''S1'', addressRows ''street'' ''string''),
      (''S2'', addressRows ''street'' ''string''),
      (''S3'', addressRows ''zip'' ''number''),
      (''S4'', addressRows ''zip'' ''number'')]"

definition clashingSchema :: json where
  "clashingSchema = buildJsonSchema intCells (parseExcelToModel ''book'' clashingSheets)"

definition streetSchema :: json where
  "streetSchema = buildBlockSchema intCells (parseBlocksInSheet (addressRows ''street'' ''string'') ! 0)"

definition zipSchema :: json where
  "zipSchema = buildBlockSchema intCells (parseBlocksInSheet (addressRows ''zip'' ''number'') ! 0)"

lemma clashing_slots:
  "map (\<lambda>s. optPath clashingSchema (slotPath s 0)) [0, 1, 2, 3]
     = [Some streetSchema, Some streetSchema, Some zipSchema, Some zipSchema]"
  by code_simp

lemma clashing_locations:
  "findAllBlockSchemas clashingSchema =
     Inr [\<lparr> sheetPos = 0, index = 0, blockSchema = streetSchema \<rparr>,
          \<lparr> sheetPos = 1, index = 0, blockSchema = streetSchema \<rparr>,
          \<lparr> sheetPos = 2, index = 0, blockSchema = zipSchema \<rparr>,
          \<lparr> sheetPos = 3, index = 0, blockSchema = zipSchema \<rparr>]"
  by code_simp

lemma clashing_dedup:
  "deduplicateBlocks clashingSchema =
     Inr (foldl (\<lambda>r s. replaceSlot r s 0 (refTo ''address_list'')) clashingSchema [0, 1, 2, 3],
          [(''address_list'', toTreeMapRecursive zipSchema)])"
  by code_simp

text \<open>The schema \<open>generate\<close> returns for it.\<close>

definition clashingResult :: json where
  "clashingResult =
     setMember ''definitions'' (JObj [(''address_list'', toTreeMapRecursive zipSchema)])
       (foldl (\<lambda>r s. replaceSlot r s 0 (refTo ''address_list'')) clashingSchema [0, 1, 2, 3])"

lemma clashing_generate: "generate intCells ''book'' clashingSheets = Inr clashingResult"
  using clashing_dedup
  by (simp add: generate_def generateFromModel_def clashingResult_def clashingSchema_def)

lemma clashing_result_slots:
  "map (\<lambda>s. optPath clashingResult (slotPath s 0)) [0, 1, 2, 3]
     = [Some (refTo ''address_list''), Some (refTo ''address_list''),
        Some (refTo ''address_list''), Some (refTo ''address_list'')]"
  by code_simp

lemma clashing_result_resolves:
  "resolveIfRef pf (refTo ''address_list'') clashingResult
     = Some (Inr (Data (toTreeMapRecursive zipSchema)))"
proof -
  have r: "refOf (refTo ''address_list'') = Ref ''#/definitions/address_list''"
    and s: "startsWith ''#/definitions/address_list'' ''#/''"
    and w: "walk clashingResult (splitOn CHR ''/'' (drop 2 ''#/definitions/address_list''))
      = Some (toTreeMapRecursive zipSchema)"
    and t: "truthy (toTreeMapRecursive zipSchema)"
    and n: "refOfVal (Data (toTreeMapRecursive zipSchema)) = NoRef"
    by code_simp+
  from w t have "resolvePointer pf (drop 2 ''#/definitions/address_list'') clashingResult
      = Inr (Data (toTreeMapRecursive zipSchema))"
    by (rule resolvePointer_walk)
  with r s n show ?thesis
    by (simp add: resolveIfRef_Ref followRefs_NoRef)
qed

lemma street_zip_differ: "contentOf (toTreeMapRecursive zipSchema) \<noteq> contentOf streetSchema"
proof
  assume a: "contentOf (toTreeMapRecursive zipSchema) = contentOf streetSchema"
  have wf: "wfJson zipSchema" "wfJson streetSchema"
    by code_simp+
  have "noProtoKey zipSchema"
    by code_simp
  with wf(1) a have c: "contentOf zipSchema = contentOf streetSchema"
    by (simp add: contentOf_toTree)
  from toTree_content [OF wf c]
  have "toTreeMapRecursive zipSchema = toTreeMapRecursive streetSchema" .
  moreover have "toTreeMapRecursive zipSchema \<noteq> toTreeMapRecursive streetSchema"
    by code_simp
  ultimately show False by simp
qed

text \<open>
  C2, the code at a failing input. For the workbook above, the first slot of the first
  sheet holds the \<open>street\<close> block before deduplication; after it the slot is a
  reference to the definition \<open>address_list\<close>, which resolves, on every platform, to
  the \<open>zip\<close> block, of another content.
\<close>

theorem dedup_clash_changes_resolution:
  "generate intCells ''book'' clashingSheets = Inr clashingResult
   \<and> optPath clashingSchema (slotPath 0 0) = Some streetSchema
   \<and> optPath clashingResult (slotPath 0 0) = Some (refTo ''address_list'')
   \<and> resolveIfRef pf (refTo ''address_list'') clashingResult
       = Some (Inr (Data (toTreeMapRecursive zipSchema)))
   \<and> contentOf (toTreeMapRecursive zipSchema) \<noteq> contentOf streetSchema"
  using clashing_generate clashing_slots clashing_result_slots clashing_result_resolves
    street_zip_differ
  by simp

text \<open>
  C6, the code at the same input. The fingerprints of the \<open>street\<close> block and of the
  \<open>zip\<close> block both occur twice, and the definitions map has the single entry
  \<open>address_list\<close>, which holds the \<open>zip\<close> block: no entry holds the \<open>street\<close> block.
\<close>

theorem dedup_clash_drops_definition:
  "(\<exists>locs schema definitions.
      findAllBlockSchemas clashingSchema = Inr locs
      \<and> deduplicateBlocks clashingSchema = Inr (schema, definitions)
      \<and> map_of (countUsage locs) (toCanonicalJson streetSchema) = Some 2
      \<and> map_of (countUsage locs) (toCanonicalJson zipSchema) = Some 2
      \<and> map fst definitions = [''address_list'']
      \<and> toCanonicalJson streetSchema \<notin> set (map (\<lambda>d. toCanonicalJson (snd d)) definitions)
      \<and> toCanonicalJson zipSchema \<in> set (map (\<lambda>d. toCanonicalJson (snd d)) definitions))"
proof -
  let ?locs = "[\<lparr> sheetPos = 0, index = 0, blockSchema = streetSchema \<rparr>,
          \<lparr> sheetPos = 1, index = 0, blockSchema = streetSchema \<rparr>,
          \<lparr> sheetPos = 2, index = 0, blockSchema = zipSchema \<rparr>,
          \<lparr> sheetPos = 3, index = 0, blockSchema = zipSchema \<rparr>]"
  have "map_of (countUsage ?locs) (toCanonicalJson streetSchema) = Some 2"
    and "map_of (countUsage ?locs) (toCanonicalJson zipSchema) = Some 2"
    and "toCanonicalJson streetSchema
      \<notin> set (map (\<lambda>d. toCanonicalJson (snd d)) [(''address_list'', toTreeMapRecursive zipSchema)])"
    and "toCanonicalJson zipSchema
      \<in> set (map (\<lambda>d. toCanonicalJson (snd d)) [(''address_list'', toTreeMapRecursive zipSchema)])"
    by code_simp+
  with clashing_locations clashing_dedup show ?thesis
    by (intro exI [of _ ?locs]
        exI [of _ "foldl (\<lambda>r s. replaceSlot r s 0 (refTo ''address_list'')) clashingSchema [0, 1, 2, 3]"]
        exI [of _ "[(''address_list'', toTreeMapRecursive zipSchema)]"])
      simp
qed

end
